theory Spec2Isabelle
  imports
    Main
    "HOL-Library.Char_ord"
    "HOL-Library.List_Lexorder"
    "HOL-Library.Multiset"
begin

section \<open>Python strings\<close>

text \<open>
  A Python \<open>str\<close> is modelled as a \<^typ>\<open>string\<close>; a \<^typ>\<open>char\<close> stands for a code point
  below 256. Strings are compared as Python compares them: code point by code point, a proper
  prefix being smaller (the lexicographic order on \<^typ>\<open>string\<close>).
\<close>

definition is_space :: "char \<Rightarrow> bool" where
  \<comment> \<open>the code points below 256 for which \<open>str.isspace\<close> holds\<close>
  "is_space c =
     (let n = (of_char c :: nat)
      in (9 \<le> n \<and> n \<le> 13) \<or> (28 \<le> n \<and> n \<le> 32) \<or> n = 133 \<or> n = 160)"

definition strip :: "string \<Rightarrow> string" where
  \<comment> \<open>\<open>s.strip()\<close>\<close>
  "strip s = rev (dropWhile is_space (rev (dropWhile is_space s)))"

definition lower_char :: "char \<Rightarrow> char" where
  "lower_char c =
     (let n = (of_char c :: nat)
      in if (65 \<le> n \<and> n \<le> 90) \<or> (192 \<le> n \<and> n \<le> 222 \<and> n \<noteq> 215)
         then char_of (n + 32) else c)"

definition lower :: "string \<Rightarrow> string" where
  \<comment> \<open>\<open>s.lower()\<close>\<close>
  "lower s = map lower_char s"

definition startswith :: "string \<Rightarrow> string \<Rightarrow> bool" where
  \<comment> \<open>\<open>s.startswith(p)\<close>\<close>
  "startswith s p = (take (length p) s = p)"

fun split_by :: "(char \<Rightarrow> bool) \<Rightarrow> string \<Rightarrow> string list" where
  \<comment> \<open>cut a string at every separator character: never empty, keeps empty fields\<close>
  "split_by sep [] = [[]]"
| "split_by sep (x # xs) =
     (if sep x then [] # split_by sep xs
      else (case split_by sep xs of [] \<Rightarrow> [[x]] | p # ps \<Rightarrow> (x # p) # ps))"

definition split_on :: "char \<Rightarrow> string \<Rightarrow> string list" where
  \<comment> \<open>\<open>s.split(c)\<close> for a one-character separator\<close>
  "split_on c s = split_by (\<lambda>x. x = c) s"

definition split_ws :: "string \<Rightarrow> string list" where
  \<comment> \<open>\<open>s.split()\<close>: cut at runs of whitespace, no empty fields\<close>
  "split_ws s = filter (\<lambda>p. p \<noteq> []) (split_by is_space s)"

definition replace_char :: "char \<Rightarrow> char \<Rightarrow> string \<Rightarrow> string" where
  \<comment> \<open>\<open>s.replace(a, b)\<close> for one-character \<open>a\<close> and \<open>b\<close>\<close>
  "replace_char a b s = map (\<lambda>x. if x = a then b else x) s"

fun join :: "string \<Rightarrow> string list \<Rightarrow> string" where
  \<comment> \<open>\<open>sep.join(parts)\<close>\<close>
  "join sep [] = []"
| "join sep [p] = p"
| "join sep (p # q # ps) = p @ sep @ join sep (q # ps)"

section \<open>Device match-token extractor and link identity normalizer\<close>

text \<open>
  The argument of \<open>extract_match_part\<close> is any Python object. The function only asks whether
  it is a \<open>str\<close> and, when it is not, for the text \<open>str()\<close> gives; so an object that is not a
  \<open>str\<close> is carried by that text (for \<open>pathlib.PurePosixPath('SITE_R1')\<close> the text is
  \<open>SITE_R1\<close>, for the integer 7 it is \<open>7\<close>).
\<close>

datatype pyobj = PyStr string | PyOther string

fun py_str :: "pyobj \<Rightarrow> string" where
  \<comment> \<open>\<open>str(x)\<close>\<close>
  "py_str (PyStr s) = s"
| "py_str (PyOther t) = t"

definition token_rules :: "string \<Rightarrow> string" where
  \<comment> \<open>lines 13 to 23 of \<open>extract_match_part\<close>: the split on \<open>_\<close> and the three cases\<close>
  "token_rules device_name =
     (let parts = split_on (CHR ''_'') device_name
      in if length parts = 2 then parts ! 1
         else if length parts > 2 then join ''_'' (drop (length parts - 2) parts)
         else device_name)"

fun extract_match_part :: "pyobj \<Rightarrow> string" where
  "extract_match_part (PyOther t) = t"
| "extract_match_part (PyStr s) = token_rules s"

definition sorted2 :: "string \<Rightarrow> string \<Rightarrow> string list" where
  \<comment> \<open>\<open>sorted([a, b])\<close>: a stable sort of two elements\<close>
  "sorted2 a b = (if b < a then [b, a] else [a, b])"

definition normalize_link :: "pyobj \<Rightarrow> pyobj \<Rightarrow> string list" where
  \<comment> \<open>the tuple is kept as the two-element list \<open>sorted\<close> returns; tuples and lists compare alike\<close>
  "normalize_link source destination =
     (let src_match = extract_match_part (PyStr (strip (py_str source)));
          dst_match = extract_match_part (PyStr (strip (py_str destination)))
      in sorted2 src_match dst_match)"

section \<open>Datasets\<close>

fun str_nat :: "nat \<Rightarrow> string" where
  \<comment> \<open>\<open>str(n)\<close> for a natural number\<close>
  "str_nat n =
     (if n < 10 then [char_of (48 + n)] else str_nat (n div 10) @ [char_of (48 + n mod 10)])"

declare str_nat.simps [simp del]

definition str_int :: "int \<Rightarrow> string" where
  \<comment> \<open>\<open>str(n)\<close> for an integer\<close>
  "str_int n = (if n < 0 then ''-'' @ str_nat (nat (- n)) else str_nat (nat n))"

text \<open>
  \<open>read_excel_any\<close> ends with \<open>convert_dtypes()\<close>, so a text column has the pandas string
  type, a column of whole numbers the nullable integer type, and an empty spreadsheet cell
  is the missing value \<open>pd.NA\<close>. A cell is a text, an integer or missing; other cell values
  (fractions, dates, truth values) are not modelled.
\<close>

datatype cell = NA | Str string | Number int

fun cell_str :: "cell \<Rightarrow> string" where
  \<comment> \<open>\<open>str(v)\<close> of a cell: \<open>pd.NA\<close> prints as \<open><NA>\<close>\<close>
  "cell_str NA = ''<NA>''"
| "cell_str (Str s) = s"
| "cell_str (Number n) = str_int n"

fun py_of_cell :: "cell \<Rightarrow> pyobj" where
  "py_of_cell NA = PyOther ''<NA>''"
| "py_of_cell (Str s) = PyStr s"
| "py_of_cell (Number n) = PyOther (str_int n)"

fun cell_eq :: "cell \<Rightarrow> cell \<Rightarrow> bool" where
  \<comment> \<open>an entry of the mask \<open>df[col] == v\<close>: a comparison with \<open>pd.NA\<close> gives \<open>pd.NA\<close>,
      which selects no row; a text and a number are not equal\<close>
  "cell_eq (Str a) (Str b) = (a = b)"
| "cell_eq (Number a) (Number b) = (a = b)"
| "cell_eq _ _ = False"

text \<open>
  The string methods of a column keep a missing cell apart from text in a way that depends
  on the pandas release: \<open>astype(str)\<close> turns \<open>pd.NA\<close> into the text \<open><NA>\<close> under pandas 2
  and leaves it missing under pandas 3. The repository pins no release, so the functions
  that depend on it take the release as an argument.
\<close>

datatype pandas = Pandas2 | Pandas3

fun astype_str :: "pandas \<Rightarrow> cell \<Rightarrow> string option" where
  \<comment> \<open>an entry of \<open>col.astype(str)\<close>; \<open>None\<close> is a missing entry\<close>
  "astype_str pd (Str s) = Some s"
| "astype_str pd (Number n) = Some (str_int n)"
| "astype_str Pandas2 NA = Some ''<NA>''"
| "astype_str Pandas3 NA = None"

text \<open>
  A row of a data frame: its index label and the four required columns, with the
  \<open>Link ID\<close> column the third panel reads. Other columns play no part. A data frame is the
  list of its rows, in order.
\<close>

record row =
  idx :: nat
  Source :: cell
  Source_Port :: cell
  Destination :: cell
  Destination_Port :: cell
  Link_ID :: cell

definition normalized :: "row \<Rightarrow> string list" where
  \<comment> \<open>the column \<open>Normalized\<close>: \<open>normalize_link(x['Source'], x['Destination'])\<close>\<close>
  "normalized x = normalize_link (py_of_cell (Source x)) (py_of_cell (Destination x))"

section \<open>Port priority scorer and preferred port resolver\<close>

fun port_priority_score :: "cell \<Rightarrow> int" where
  "port_priority_score NA = 0"
| "port_priority_score port =
     (let port_str = lower (cell_str port)
      in if startswith port_str ''eth'' then 3
         else if startswith port_str ''ae'' then 2
         else 1)"

definition port_startswith :: "string \<Rightarrow> cell \<Rightarrow> bool" where
  \<comment> \<open>an entry of \<open>col.astype(str).str.lower().str.startswith(p)\<close>, as it selects rows:
      a missing cell is not selected (as the text \<open><NA>\<close> under pandas 2, as a missing
      entry of the mask under pandas 3)\<close>
  "port_startswith p c = (c \<noteq> NA \<and> startswith (lower (cell_str c)) p)"

definition first_or :: "'a list \<Rightarrow> 'a list \<Rightarrow> 'a option" where
  \<comment> \<open>\<open>a.iloc[0] if not a.empty else b.iloc[0]\<close>; \<open>b\<close> is never empty where this is used\<close>
  "first_or a b = (case a of x # _ \<Rightarrow> Some x | [] \<Rightarrow> (case b of y # _ \<Rightarrow> Some y | [] \<Rightarrow> None))"

definition get_preferred_ports :: "row list \<Rightarrow> cell \<Rightarrow> cell \<Rightarrow> cell option \<times> cell option" where
  "get_preferred_ports df source destination =
     (let filtered = filter (\<lambda>r. cell_eq (Source r) source \<and> cell_eq (Destination r) destination) df;
          filtered = (if filtered = []
                      then filter (\<lambda>r. cell_eq (Source r) destination \<and> cell_eq (Destination r) source) df
                      else filtered)
      in if filtered = [] then (None, None)
         else
           let eth_source = filter (\<lambda>r. port_startswith ''eth'' (Source_Port r)) filtered;
               eth_dest = filter (\<lambda>r. port_startswith ''eth'' (Destination_Port r)) filtered;
               eth_source = (if eth_source = []
                             then filter (\<lambda>r. port_startswith ''ae'' (Source_Port r)) filtered
                             else eth_source);
               eth_dest = (if eth_dest = []
                           then filter (\<lambda>r. port_startswith ''ae'' (Destination_Port r)) filtered
                           else eth_dest);
               source_port = first_or (map Source_Port eth_source) (map Source_Port filtered);
               dest_port = first_or (map Destination_Port eth_dest) (map Destination_Port filtered)
           in (source_port, dest_port))"

section \<open>Duplicate port detector\<close>

definition plus_port :: "pandas \<Rightarrow> cell \<Rightarrow> cell \<Rightarrow> string option" where
  \<comment> \<open>\<open>dev.astype(str).str.strip() + "_" + port.astype(str).str.strip()\<close> for one row:
      missing when one of the two entries is\<close>
  "plus_port pd device port =
     (case astype_str pd device of
        None \<Rightarrow> None
      | Some d \<Rightarrow> (case astype_str pd port of
                     None \<Rightarrow> None
                   | Some p \<Rightarrow> Some (strip d @ ''_'' @ strip p)))"

definition source_plus_port :: "pandas \<Rightarrow> row \<Rightarrow> string option" where
  \<comment> \<open>the column \<open>Source+Port\<close>\<close>
  "source_plus_port pd r = plus_port pd (Source r) (Source_Port r)"

definition dest_plus_port :: "pandas \<Rightarrow> row \<Rightarrow> string option" where
  \<comment> \<open>the column \<open>Dest+Port\<close>\<close>
  "dest_plus_port pd r = plus_port pd (Destination r) (Destination_Port r)"

definition counted_twice :: "string option list \<Rightarrow> string option \<Rightarrow> bool" where
  \<comment> \<open>an entry of \<open>col.map(col.value_counts()) > 1\<close>: \<open>value_counts\<close> leaves missing keys
      out, so a missing key has no count and is not above 1\<close>
  "counted_twice col k = (k \<noteq> None \<and> count_list col k > 1)"

definition source_port_duplicate :: "pandas \<Rightarrow> row list \<Rightarrow> row \<Rightarrow> bool" where
  \<comment> \<open>the column \<open>Source Port Duplicate\<close>\<close>
  "source_port_duplicate pd df r =
     counted_twice (map (source_plus_port pd) df) (source_plus_port pd r)"

definition destination_port_duplicate :: "pandas \<Rightarrow> row list \<Rightarrow> row \<Rightarrow> bool" where
  \<comment> \<open>the column \<open>Destination Port Duplicate\<close>\<close>
  "destination_port_duplicate pd df r =
     counted_twice (map (dest_plus_port pd) df) (dest_plus_port pd r)"

record dup_port_row =
  dp_row :: row
  dp_source_plus_port :: "string option"
  dp_dest_plus_port :: "string option"
  dp_source_port_duplicate :: bool
  dp_destination_port_duplicate :: bool

definition find_duplicate_ports :: "pandas \<Rightarrow> row list \<Rightarrow> dup_port_row list" where
  "find_duplicate_ports pd df =
     map (\<lambda>r. \<lparr>dp_row = r,
               dp_source_plus_port = source_plus_port pd r,
               dp_dest_plus_port = dest_plus_port pd r,
               dp_source_port_duplicate = source_port_duplicate pd df r,
               dp_destination_port_duplicate = destination_port_duplicate pd df r\<rparr>)
       (filter (\<lambda>r. source_port_duplicate pd df r \<or> destination_port_duplicate pd df r) df)"

section \<open>Directional duplicate resolver\<close>

definition total_priority :: "row \<Rightarrow> int" where
  \<comment> \<open>the column \<open>Total Priority\<close>\<close>
  "total_priority r = port_priority_score (Source_Port r) + port_priority_score (Destination_Port r)"

fun duplicated_first :: "'k list \<Rightarrow> 'k list \<Rightarrow> bool list" where
  \<comment> \<open>\<open>duplicated(keep='first')\<close> on a key column, given the keys already seen: an entry is
      marked when its key has occurred before\<close>
  "duplicated_first seen [] = []"
| "duplicated_first seen (k # ks) = (k \<in> set seen) # duplicated_first (k # seen) ks"

definition duplicated_all :: "'k list \<Rightarrow> bool list" where
  \<comment> \<open>\<open>duplicated(keep=False)\<close>: an entry is marked when its key occurs more than once\<close>
  "duplicated_all ks = map (\<lambda>k. count_list ks k > 1) ks"

definition select_rows :: "bool list \<Rightarrow> 'a list \<Rightarrow> 'a list" where
  \<comment> \<open>\<open>df[mask]\<close> for a boolean mask as long as the frame\<close>
  "select_rows flags df = map snd (filter fst (zip flags df))"

text \<open>
  \<open>df.sort_values('Total Priority', ascending=False)\<close> is called with the default
  \<open>kind='quicksort'\<close>. For a descending sort pandas reverses the key column, asks numpy for
  the ascending \<open>argsort\<close> of it, maps the result back to the positions of the frame and
  reverses it. pandas documents that only \<open>mergesort\<close> and \<open>stable\<close> keep rows of equal key
  in their order; which index array \<open>argsort(kind='quicksort')\<close> returns for equal keys
  depends on the numpy build. The resolver therefore takes numpy's \<open>argsort\<close> as an
  argument; \<open>is_argsort\<close> is what numpy promises of it on a key array.
\<close>

definition is_argsort :: "(int list \<Rightarrow> nat list) \<Rightarrow> int list \<Rightarrow> bool" where
  \<comment> \<open>the result holds every position once and lists the keys in ascending order\<close>
  "is_argsort argsort v =
     (mset (argsort v) = mset [0 ..< length v] \<and> sorted (map (\<lambda>i. v ! i) (argsort v)))"

definition sort_values_descending :: "(int list \<Rightarrow> nat list) \<Rightarrow> ('a \<Rightarrow> int) \<Rightarrow> 'a list \<Rightarrow> 'a list" where
  \<comment> \<open>\<open>df.sort_values(key, ascending=False)\<close>, \<open>key\<close> a column of integers without missing
      entries\<close>
  "sort_values_descending argsort key df =
     (let items = map key df;
          idx = [0 ..< length items];
          non_nans = rev items;
          non_nan_idx = rev idx;
          indexer = rev (map (\<lambda>i. non_nan_idx ! i) (argsort non_nans))
      in map (\<lambda>i. df ! i) indexer)"

definition sorts_descending :: "('a \<Rightarrow> int) \<Rightarrow> 'a list \<Rightarrow> 'a list \<Rightarrow> bool" where
  \<comment> \<open>\<open>sorted_df\<close> holds the rows of \<open>df\<close>, in descending order of the key\<close>
  "sorts_descending key df sorted_df =
     (mset sorted_df = mset df \<and> sorted_wrt (\<lambda>a b. key a \<ge> key b) sorted_df)"


definition remove_duplicate_links_with_priority ::
  "(int list \<Rightarrow> nat list) \<Rightarrow> row list \<Rightarrow> row list \<times> row list" where
  "remove_duplicate_links_with_priority argsort df =
     (let df = sort_values_descending argsort total_priority df;
          cleaned = select_rows (map Not (duplicated_first [] (map normalized df))) df;
          duplicates = select_rows (duplicated_first [] (map normalized df)) df
      in (cleaned, duplicates))"

subsection \<open>The quicksort of numpy\<close>

text \<open>
  Where numpy dispatches no vectorized sort, \<open>argsort(kind='quicksort')\<close> on integer keys
  is the function \<open>aquicksort\<close> of \<open>npysort/quicksort.cpp\<close>, an introsort on the index array
  \<open>tosort\<close>: a range of more than 17 entries is partitioned around the median of its first,
  middle and last key, a shorter range is insertion sorted. The partition exchanges entries
  of equal key, which is why the sort is not stable. After \<open>2 * npy_get_msb(num)\<close> levels
  numpy hands a range to heapsort; the model stops there with \<open>None\<close>.
\<close>

definition key_at :: "int list \<Rightarrow> nat list \<Rightarrow> nat \<Rightarrow> int" where
  \<comment> \<open>\<open>v[*p]\<close>: the key of the entry at position \<open>p\<close> of the index array\<close>
  "key_at v tosort p = v ! (tosort ! p)"

definition intp_swap :: "nat \<Rightarrow> nat \<Rightarrow> nat list \<Rightarrow> nat list" where
  \<comment> \<open>\<open>INTP_SWAP(*a, *b)\<close>\<close>
  "intp_swap a b tosort = tosort[a := tosort ! b, b := tosort ! a]"

function scan_up :: "int list \<Rightarrow> int \<Rightarrow> nat list \<Rightarrow> nat \<Rightarrow> nat" where
  \<comment> \<open>\<open>while (v[*pi] < vp) ++pi\<close>; the bound on \<open>pi\<close> is never reached in a partition\<close>
  "scan_up v vp tosort pi =
     (if pi < length tosort \<and> key_at v tosort pi < vp then scan_up v vp tosort (Suc pi) else pi)"
  by pat_completeness auto
termination
  by (relation "measure (\<lambda>(v, vp, tosort, pi). length tosort - pi)") auto

fun scan_down :: "int list \<Rightarrow> int \<Rightarrow> nat list \<Rightarrow> nat \<Rightarrow> nat" where
  \<comment> \<open>\<open>while (vp < v[*pj]) --pj\<close>\<close>
  "scan_down v vp tosort pj =
     (if 0 < pj \<and> vp < key_at v tosort pj then scan_down v vp tosort (pj - 1) else pj)"

declare scan_up.simps [simp del] scan_down.simps [simp del]

lemma scan_up_ge: "pi \<le> scan_up v vp tosort pi"
  by (induction v vp tosort pi rule: scan_up.induct) (subst scan_up.simps, auto)

lemma scan_down_le: "scan_down v vp tosort pj \<le> pj"
  by (induction v vp tosort pj rule: scan_down.induct) (subst scan_down.simps, auto)

function partition_loop :: "int list \<Rightarrow> int \<Rightarrow> nat list \<Rightarrow> nat \<Rightarrow> nat \<Rightarrow> nat list \<times> nat" where
  \<comment> \<open>the loop \<open>for (;;)\<close> of a partition: both scans, then a swap unless they have met\<close>
  "partition_loop v vp tosort pi pj =
     (let pi = scan_up v vp tosort (Suc pi);
          pj = scan_down v vp tosort (pj - 1)
      in if pi \<ge> pj then (tosort, pi)
         else partition_loop v vp (intp_swap pi pj tosort) pi pj)"
  by pat_completeness auto
termination
proof (relation "measure (\<lambda>(v, vp, tosort, pi, pj). pj - pi)", goal_cases)
  case 1
  then show ?case by simp
next
  case (2 v vp tosort pi pj x xa)
  have "Suc pi \<le> x" using 2(1) scan_up_ge by simp
  moreover have "xa \<le> pj - 1" using 2(2) scan_down_le by simp
  ultimately show ?case using 2(3) by simp
qed

declare partition_loop.simps [simp del]

definition partition :: "int list \<Rightarrow> nat list \<Rightarrow> nat \<Rightarrow> nat \<Rightarrow> nat list \<times> nat" where
  \<comment> \<open>median of three, the pivot parked at \<open>pr - 1\<close>, the loop, the pivot put in place;
      returns the index array and the place \<open>pi\<close> of the pivot\<close>
  "partition v tosort pl pr =
     (let pm = pl + (pr - pl) div 2;
          tosort = (if key_at v tosort pm < key_at v tosort pl then intp_swap pm pl tosort else tosort);
          tosort = (if key_at v tosort pr < key_at v tosort pm then intp_swap pr pm tosort else tosort);
          tosort = (if key_at v tosort pm < key_at v tosort pl then intp_swap pm pl tosort else tosort);
          vp = key_at v tosort pm;
          pj = pr - 1;
          tosort = intp_swap pm pj tosort;
          (tosort, pi) = partition_loop v vp tosort pl pj
      in (intp_swap pi (pr - 1) tosort, pi))"

fun insert_back :: "int list \<Rightarrow> nat \<Rightarrow> nat \<Rightarrow> int \<Rightarrow> nat list \<Rightarrow> nat \<Rightarrow> nat list" where
  \<comment> \<open>the inner loop of the insertion sort: entries with a greater key move up\<close>
  "insert_back v pl vi vp tosort pj =
     (if pj > pl \<and> vp < key_at v tosort (pj - 1)
      then insert_back v pl vi vp (tosort[pj := tosort ! (pj - 1)]) (pj - 1)
      else tosort[pj := vi])"

declare insert_back.simps [simp del]

definition insertion_sort :: "int list \<Rightarrow> nat list \<Rightarrow> nat \<Rightarrow> nat \<Rightarrow> nat list" where
  \<comment> \<open>the insertion sort of the range \<open>pl .. pr\<close>\<close>
  "insertion_sort v tosort pl pr =
     fold (\<lambda>pi tosort. insert_back v pl (tosort ! pi) (v ! (tosort ! pi)) tosort pi)
       [Suc pl ..< Suc pr] tosort"

fun quicksort_range :: "nat \<Rightarrow> int list \<Rightarrow> nat list \<Rightarrow> nat \<Rightarrow> nat \<Rightarrow> nat list option" where
  \<comment> \<open>a range \<open>pl .. pr\<close> of more than 17 entries is partitioned and its two parts sorted,
      a shorter one is insertion sorted; the first argument counts the levels left before
      numpy hands the range to heapsort\<close>
  "quicksort_range 0 v tosort pl pr = None"
| "quicksort_range (Suc cdepth) v tosort pl pr =
     (if pr - pl > 16
      then (let (tosort, pi) = partition v tosort pl pr
            in if pi - pl < pr - pi
               then (case quicksort_range cdepth v tosort pl (pi - 1) of
                       None \<Rightarrow> None
                     | Some tosort \<Rightarrow> quicksort_range cdepth v tosort (pi + 1) pr)
               else (case quicksort_range cdepth v tosort (pi + 1) pr of
                       None \<Rightarrow> None
                     | Some tosort \<Rightarrow> quicksort_range cdepth v tosort pl (pi - 1)))
      else Some (insertion_sort v tosort pl pr))"

fun npy_get_msb :: "nat \<Rightarrow> nat" where
  \<comment> \<open>the position of the highest bit of \<open>n\<close>\<close>
  "npy_get_msb n = (if n < 2 then 0 else Suc (npy_get_msb (n div 2)))"

declare npy_get_msb.simps [simp del]

definition aquicksort :: "int list \<Rightarrow> nat list option" where
  "aquicksort v =
     (let num = length v
      in quicksort_range (Suc (2 * npy_get_msb num)) v [0 ..< num] 0 (num - 1))"

definition numpy_argsort :: "int list \<Rightarrow> nat list" where
  \<comment> \<open>\<open>v.argsort(kind='quicksort')\<close> by the quicksort above; where the model stops, the
      positions in their order\<close>
  "numpy_argsort v = (case aquicksort v of Some tosort \<Rightarrow> tosort | None \<Rightarrow> [0 ..< length v])"

subsection \<open>The sorting network of x86-simd-sort\<close>

text \<open>
  On an x86 processor with AVX-512 (in later releases also with AVX2) numpy hands
  \<open>argsort(kind='quicksort')\<close> on 64-bit integer keys to \<open>x86-simd-sort\<close> instead. Up to
  eight keys are loaded into one register of eight lanes, the lanes left over filled with
  the greatest integer, beside a register that holds the position of each key, and
  \<open>sort_zmm_64bit\<close> sorts the two registers by a bitonic network of six layers. A layer
  \<open>cmp_merge\<close> pairs every lane with another lane: a lane of the mask takes the greater key
  of the pair, a lane outside it the smaller; a lane whose key has not changed keeps its
  position, any other lane takes the position of its partner. On up to four keys the last
  three layers change nothing: the first three are the bitonic network of four lanes.
  Longer key arrays go through further merge networks, which are not modelled:
  \<open>avx512_argsort\<close> is \<open>None\<close> for them.
\<close>

type_synonym zmm = "(int \<times> nat) list"

definition zmm_max :: int where
  \<comment> \<open>the greatest 64-bit integer\<close>
  "zmm_max = 2 ^ 63 - 1"

definition cmp_merge :: "nat list \<Rightarrow> nat list \<Rightarrow> zmm \<Rightarrow> zmm" where
  \<comment> \<open>\<open>partner\<close> gives the lane each lane is compared with, \<open>maxima\<close> the lanes of the mask;
      a lane holds its key and the position of that key\<close>
  "cmp_merge partner maxima reg =
     map (\<lambda>i. let in1 = fst (reg ! i);
                   in2 = fst (reg ! (partner ! i));
                   tmp_keys = (if i \<in> set maxima then max in2 in1 else min in2 in1)
               in (tmp_keys, if tmp_keys = in1 then snd (reg ! i) else snd (reg ! (partner ! i))))
       [0 ..< length reg]"

definition sort_zmm_64bit :: "zmm \<Rightarrow> zmm" where
  \<comment> \<open>the shuffle exchanges neighbours, \<open>NETWORK_64BIT_1\<close> reverses each half,
      \<open>NETWORK_64BIT_2\<close> the register, \<open>NETWORK_64BIT_3\<close> exchanges pairs of lanes; the masks
      are \<open>0xAA\<close>, \<open>0xCC\<close> and \<open>0xF0\<close>\<close>
  "sort_zmm_64bit reg =
     (let shuffle = [1, 0, 3, 2, 5, 4, 7, 6];
          network_1 = [3, 2, 1, 0, 7, 6, 5, 4];
          rev_index = [7, 6, 5, 4, 3, 2, 1, 0];
          network_3 = [2, 3, 0, 1, 6, 7, 4, 5];
          oxAA = [1, 3, 5, 7];
          oxCC = [2, 3, 6, 7];
          oxF0 = [4, 5, 6, 7];
          reg = cmp_merge shuffle oxAA reg;
          reg = cmp_merge network_1 oxCC reg;
          reg = cmp_merge shuffle oxAA reg;
          reg = cmp_merge rev_index oxF0 reg;
          reg = cmp_merge network_3 oxCC reg;
          reg = cmp_merge shuffle oxAA reg
      in reg)"

definition avx512_argsort :: "int list \<Rightarrow> nat list option" where
  \<comment> \<open>the positions \<open>0 .. n - 1\<close> and their keys are loaded, sorted and the first \<open>n\<close>
      positions stored\<close>
  "avx512_argsort arr =
     (let n = length arr
      in if n \<le> 8
         then Some (take n (map snd (sort_zmm_64bit
                 (map (\<lambda>i. if i < n then (arr ! i, i) else (zmm_max, 0)) [0 ..< 8]))))
         else None)"

definition numpy_simd_argsort :: "int list \<Rightarrow> nat list" where
  \<comment> \<open>\<open>v.argsort(kind='quicksort')\<close> by the network above; where the model stops, the
      positions in their order\<close>
  "numpy_simd_argsort v =
     (case avx512_argsort v of Some arg \<Rightarrow> arg | None \<Rightarrow> [0 ..< length v])"

section \<open>Link analysis: port correction analyzer and cross-dataset matcher\<close>

datatype py_error = TypeError | IndexError | AttributeError

fun collect :: "('a \<Rightarrow> py_error + 'b list) \<Rightarrow> 'a list \<Rightarrow> py_error + 'b list" where
  \<comment> \<open>a loop that appends what each pass yields; an exception in a pass ends the loop\<close>
  "collect f [] = Inr []"
| "collect f (x # xs) =
     (case f x of
        Inl e \<Rightarrow> Inl e
      | Inr ys \<Rightarrow> (case collect f xs of Inl e \<Rightarrow> Inl e | Inr zs \<Rightarrow> Inr (ys @ zs)))"

definition link_name :: "cell \<Rightarrow> cell \<Rightarrow> string" where
  \<comment> \<open>\<open>f"{src} to {dst}"\<close>\<close>
  "link_name src dst = cell_str src @ '' to '' @ cell_str dst"

definition groupby_normalized :: "row list \<Rightarrow> (string list \<times> row list) list" where
  \<comment> \<open>\<open>df.groupby('Normalized')\<close>: the groups in ascending order of the key, each with its
      rows in the order of the frame\<close>
  "groupby_normalized df =
     map (\<lambda>k. (k, filter (\<lambda>r. normalized r = k) df)) (sort (remdups (map normalized df)))"

record port_correction =
  pc_link_name :: string
  pc_source :: cell
  pc_original_source_port :: string
  pc_corrected_source_port :: string
  pc_destination :: cell
  pc_original_destination_port :: string
  pc_corrected_destination_port :: string
  pc_port_priority_applied :: bool
  pc_issue :: string

fun corrected_str :: "cell option \<Rightarrow> py_error + string" where
  \<comment> \<open>\<open>str(p).strip() if p else 'N/A'\<close>: \<open>None\<close>, the empty text and the number 0 are
      false, the truth value of \<open>pd.NA\<close> raises \<open>TypeError\<close>\<close>
  "corrected_str None = Inr ''N/A''"
| "corrected_str (Some NA) = Inl TypeError"
| "corrected_str (Some (Str p)) = Inr (if p = [] then ''N/A'' else strip p)"
| "corrected_str (Some (Number n)) = Inr (if n = 0 then ''N/A'' else strip (str_int n))"

definition priority_prefix :: "string \<Rightarrow> bool" where
  \<comment> \<open>\<open>s.lower().startswith(('eth', 'ae'))\<close>\<close>
  "priority_prefix s = (startswith (lower s) ''eth'' \<or> startswith (lower s) ''ae'')"

definition row_correction ::
  "cell \<Rightarrow> cell \<Rightarrow> cell option \<Rightarrow> cell option \<Rightarrow> row \<Rightarrow> py_error + port_correction list" where
  \<comment> \<open>one pass of the loop over the rows of a group (lines 274 to 294)\<close>
  "row_correction src dst corr_src_port corr_dst_port row =
     (let orig_src = strip (cell_str (Source_Port row));
          orig_dst = strip (cell_str (Destination_Port row))
      in case corrected_str corr_src_port of
           Inl e \<Rightarrow> Inl e
         | Inr corr_src \<Rightarrow>
             (case corrected_str corr_dst_port of
                Inl e \<Rightarrow> Inl e
              | Inr corr_dst \<Rightarrow>
                  Inr (if orig_src \<noteq> corr_src \<or> orig_dst \<noteq> corr_dst
                       then [\<lparr>pc_link_name = link_name src dst,
                              pc_source = src,
                              pc_original_source_port = orig_src,
                              pc_corrected_source_port = corr_src,
                              pc_destination = dst,
                              pc_original_destination_port = orig_dst,
                              pc_corrected_destination_port = corr_dst,
                              pc_port_priority_applied =
                                (priority_prefix corr_src \<or> priority_prefix corr_dst),
                              pc_issue = ''Port Mismatch''\<rparr>]
                       else [])))"

definition group_corrections :: "row list \<Rightarrow> row list \<Rightarrow> py_error + port_correction list" where
  \<comment> \<open>one pass of the loop over the groups (lines 261 to 294)\<close>
  "group_corrections main_df grp =
     (if length grp > 1
      then (case grp of
              [] \<Rightarrow> Inl IndexError
            | sample_row # _ \<Rightarrow>
                let src = Source sample_row;
                    dst = Destination sample_row;
                    (corr_src_port, corr_dst_port) = get_preferred_ports main_df src dst
                in collect (row_correction src dst corr_src_port corr_dst_port) grp)
      else Inr [])"

definition port_corrections :: "row list \<Rightarrow> py_error + port_correction list" where
  "port_corrections main_df =
     collect (\<lambda>(norm_link, grp). group_corrections main_df grp) (groupby_normalized main_df)"

record analysis_result =
  ar_link_name :: string
  ar_source :: cell
  ar_original_source_port :: cell
  ar_destination :: cell
  ar_original_destination_port :: cell
  ar_match_status :: string
  ar_normalized_link :: "string list"

record missing_result =
  mr_link_name :: string
  mr_source :: cell
  mr_corrected_source_port :: "cell option"
  mr_destination :: cell
  mr_corrected_destination_port :: "cell option"
  mr_normalized_link :: "string list"

text \<open>
  The loop of lines 297 to 331 runs over \<open>all_links\<close>, a Python \<open>set\<close> of tuples of strings.
  The order in which a set is iterated follows the hashes of its elements, and the hash of a
  string changes from one run of the interpreter to the next; so the loop takes the sequence in
  which the set is visited as an argument, and \<open>iterates\<close> says what Python promises of it:
  every element of the set once. The records keep the link key itself where the source
  stores its printed form \<open>str(norm_link)\<close>.
\<close>

definition iterates :: "'a list \<Rightarrow> 'a set \<Rightarrow> bool" where
  "iterates visit s = (distinct visit \<and> set visit = s)"

definition analyse_link ::
  "row list \<Rightarrow> string list set \<Rightarrow> string list \<Rightarrow> analysis_result list \<times> missing_result list" where
  \<comment> \<open>one pass of the loop: what it appends to \<open>analysis_results\<close> and to \<open>missing_results\<close>\<close>
  "analyse_link main_df match_links norm_link =
     (let main_subset = filter (\<lambda>r. normalized r = norm_link) main_df
      in case main_subset of
           [] \<Rightarrow> ([], [])
         | original # _ \<Rightarrow>
             let src = Source original;
                 dst = Destination original;
                 exists = (norm_link \<in> match_links);
                 (corr_src_port, corr_dst_port) = get_preferred_ports main_df src dst
             in ([\<lparr>ar_link_name = link_name src dst,
                   ar_source = src,
                   ar_original_source_port = Source_Port original,
                   ar_destination = dst,
                   ar_original_destination_port = Destination_Port original,
                   ar_match_status = (if exists then ''Found'' else ''Missing''),
                   ar_normalized_link = norm_link\<rparr>],
                 if \<not> exists
                 then [\<lparr>mr_link_name = link_name src dst,
                        mr_source = src,
                        mr_corrected_source_port = corr_src_port,
                        mr_destination = dst,
                        mr_corrected_destination_port = corr_dst_port,
                        mr_normalized_link = norm_link\<rparr>]
                 else []))"

definition analysis_results :: "string list list \<Rightarrow> row list \<Rightarrow> row list \<Rightarrow> analysis_result list" where
  \<comment> \<open>\<open>all_links\<close> is the sequence in which the set of the link keys of \<open>main_df\<close> is visited\<close>
  "analysis_results all_links main_df match_df =
     concat (map (\<lambda>norm_link. fst (analyse_link main_df (set (map normalized match_df)) norm_link))
               all_links)"

definition missing_results :: "string list list \<Rightarrow> row list \<Rightarrow> row list \<Rightarrow> missing_result list" where
  "missing_results all_links main_df match_df =
     concat (map (\<lambda>norm_link. snd (analyse_link main_df (set (map normalized match_df)) norm_link))
               all_links)"

section \<open>Duplicate links summary\<close>

record summary_row =
  sm_link_name :: string
  sm_link_ids :: string
  sm_source :: cell
  sm_source_port :: cell
  sm_destination :: cell
  sm_destination_port :: cell
  sm_to_be_removed :: string

definition agg_first :: "cell list \<Rightarrow> cell" where
  \<comment> \<open>the group aggregate \<open>'first'\<close>: the first value of the column that is not missing\<close>
  "agg_first cs = (case filter (\<lambda>c. c \<noteq> NA) cs of [] \<Rightarrow> NA | c # _ \<Rightarrow> c)"

fun cell_ne :: "cell \<Rightarrow> cell \<Rightarrow> py_error + bool" where
  \<comment> \<open>\<open>a != b\<close> taken as a condition: with \<open>pd.NA\<close> on a side the comparison is \<open>pd.NA\<close>,
      whose truth value raises\<close>
  "cell_ne NA _ = Inl TypeError"
| "cell_ne _ NA = Inl TypeError"
| "cell_ne (Str a) (Str b) = Inr (a \<noteq> b)"
| "cell_ne (Number a) (Number b) = Inr (a \<noteq> b)"
| "cell_ne _ _ = Inr True"

fun link_ids_except :: "cell \<Rightarrow> cell list \<Rightarrow> py_error + cell list" where
  \<comment> \<open>\<open>[lid for lid in all_link_ids if lid != kept_link_id]\<close>\<close>
  "link_ids_except kept_link_id [] = Inr []"
| "link_ids_except kept_link_id (lid # lids) =
     (case cell_ne lid kept_link_id of
        Inl e \<Rightarrow> Inl e
      | Inr keep \<Rightarrow>
          (case link_ids_except kept_link_id lids of
             Inl e \<Rightarrow> Inl e
           | Inr rest \<Rightarrow> Inr (if keep then lid # rest else rest)))"

definition keep_status :: "bool \<Rightarrow> string" where
  "keep_status dup = (if dup then ''Duplicate (would be removed)'' else ''Original (would be kept)'')"

definition summary_of_group ::
  "(row \<times> string) list \<Rightarrow> string list \<times> row list \<Rightarrow> py_error + summary_row list" where
  \<comment> \<open>one pass of the loop over \<open>grouped_duplicates\<close> (lines 508 to 529); the first argument
      is \<open>all_duplicates\<close>, each row with its \<open>Keep Status\<close>\<close>
  "summary_of_group all_duplicates g =
     (let (norm_link, grp) = g;
          all_link_ids = map Link_ID grp;
          link_rows = filter (\<lambda>(r, status). normalized r = norm_link) all_duplicates
      in case filter (\<lambda>(r, status). status = ''Original (would be kept)'') link_rows of
           [] \<Rightarrow> Inl IndexError
         | (kept_row, _) # _ \<Rightarrow>
             (case link_ids_except (Link_ID kept_row) all_link_ids of
                Inl e \<Rightarrow> Inl e
              | Inr to_be_removed \<Rightarrow>
                  Inr [\<lparr>sm_link_name =
                          link_name (agg_first (map Source grp)) (agg_first (map Destination grp)),
                        sm_link_ids = join '', '' (map cell_str all_link_ids),
                        sm_source = agg_first (map Source grp),
                        sm_source_port = agg_first (map Source_Port grp),
                        sm_destination = agg_first (map Destination grp),
                        sm_destination_port = agg_first (map Destination_Port grp),
                        sm_to_be_removed =
                          (if to_be_removed \<noteq> [] then join '', '' (map cell_str to_be_removed)
                           else ''None'')\<rparr>]))"

definition summary_data :: "row list \<Rightarrow> py_error + summary_row list" where
  \<comment> \<open>lines 487 to 529, on the frame \<open>df\<close> in its original order\<close>
  "summary_data df =
     (let all_duplicates = select_rows (duplicated_all (map normalized df)) df;
          statuses = map keep_status (duplicated_first [] (map normalized all_duplicates))
      in collect (summary_of_group (zip all_duplicates statuses)) (groupby_normalized all_duplicates))"

section \<open>Column canonicalizer, required columns and the three panels\<close>

text \<open>
  What \<open>read_excel_any\<close> returns: the header and the rows of cells under it.
\<close>

record sheet =
  columns :: "string list"
  cells :: "cell list list"

definition canonical_name :: "string \<Rightarrow> string" where
  \<comment> \<open>the entry of \<open>rename_map\<close> for a header, or the header itself when it has none\<close>
  "canonical_name c =
     (let key = replace_char (CHR ''-'') (CHR '' '')
                  (replace_char (CHR ''_'') (CHR '' '') (lower (strip c)));
          key = join '' '' (split_ws key)
      in if key \<in> set [''source'', ''src''] then ''Source''
         else if key \<in> set [''source port'', ''src port'', ''sourceport'', ''srcport'']
           then ''Source Port''
         else if key \<in> set [''destination'', ''dest''] then ''Destination''
         else if key \<in> set [''destination port'', ''dest port'', ''destinationport'', ''destport'']
           then ''Destination Port''
         else c)"

definition canonicalize_columns :: "sheet \<Rightarrow> sheet" where
  "canonicalize_columns df = df\<lparr>columns := map (\<lambda>c. strip (canonical_name c)) (columns df)\<rparr>"

definition cell_at :: "sheet \<Rightarrow> cell list \<Rightarrow> string \<Rightarrow> cell" where
  \<comment> \<open>\<open>x[name]\<close> for a row \<open>x\<close> of the frame; only read for a column that is present.
      When a header occurs twice pandas hands back both cells; the second panel fails on
      that (see \<open>tab_dup_ports\<close>), and for the other two panels a frame with a repeated
      required header is outside the model, which reads the first of the cells\<close>
  "cell_at df x name = (case map_of (zip (columns df) x) name of None \<Rightarrow> NA | Some c \<Rightarrow> c)"

definition rows_of :: "sheet \<Rightarrow> row list" where
  "rows_of df =
     map (\<lambda>(i, x). \<lparr>idx = i,
                    Source = cell_at df x ''Source'',
                    Source_Port = cell_at df x ''Source Port'',
                    Destination = cell_at df x ''Destination'',
                    Destination_Port = cell_at df x ''Destination Port'',
                    Link_ID = cell_at df x ''Link ID''\<rparr>)
       (enumerate 0 (cells df))"

definition missing_columns :: "string list \<Rightarrow> sheet \<Rightarrow> string list" where
  \<comment> \<open>\<open>[c for c in required_cols if c not in df.columns]\<close>\<close>
  "missing_columns required_cols df = filter (\<lambda>c. c \<notin> set (columns df)) required_cols"

definition exception_text :: "py_error \<Rightarrow> string" where
  \<comment> \<open>\<open>str(e)\<close> for the exceptions of the model; \<open>CHR 0x27\<close> is the quote character\<close>
  "exception_text e =
     (case e of
        TypeError \<Rightarrow> ''boolean value of NA is ambiguous''
      | IndexError \<Rightarrow> ''single positional indexer is out-of-bounds''
      | AttributeError \<Rightarrow>
          [CHR 0x27] @ ''DataFrame'' @ [CHR 0x27] @ '' object has no attribute '' @
          [CHR 0x27] @ ''str'' @ [CHR 0x27])"

definition error_text :: "py_error \<Rightarrow> string" where
  \<comment> \<open>\<open>f"Error: {e}"\<close>\<close>
  "error_text e = ''Error: '' @ exception_text e"

text \<open>
  A panel either shows its reports (\<open>Inr\<close>) or shows an error message and no report
  (\<open>Inl\<close>, the text given to \<open>st.error\<close>).
\<close>

record link_reports =
  analysis_df :: "analysis_result list"
  missing_df :: "missing_result list"
  ports_df :: "port_correction list"

fun first_missing :: "string list \<Rightarrow> (sheet \<times> string) list \<Rightarrow> string option" where
  \<comment> \<open>the loop of lines 239 to 243: the message of the first frame that lacks a column, at
      which \<open>st.stop()\<close> ends the run\<close>
  "first_missing required_cols [] = None"
| "first_missing required_cols ((df, name) # rest) =
     (let missing = missing_columns required_cols df
      in if missing \<noteq> [] then Some (name @ '' missing columns: '' @ join '', '' missing)
         else first_missing required_cols rest)"

definition reset_index :: "row list \<Rightarrow> row list" where
  "reset_index df = map (\<lambda>(i, r). r\<lparr>idx := i\<rparr>) (enumerate 0 df)"

definition tab_main ::
  "(row list \<Rightarrow> row list) \<Rightarrow> (string list list \<Rightarrow> string list list) \<Rightarrow> sheet \<Rightarrow> sheet
     \<Rightarrow> string + link_reports" where
  \<comment> \<open>first panel, lines 233 to 358; \<open>sort_by_link\<close> is \<open>sort_values(by=['Normalized'])\<close> and
      \<open>visit\<close> the order in which the set made of a column is iterated\<close>
  "tab_main sort_by_link visit main_db match_db =
     (let main_df = canonicalize_columns main_db;
          match_df = canonicalize_columns match_db;
          required_cols = [''Source'', ''Source Port'', ''Destination'', ''Destination Port'']
      in case first_missing required_cols [(main_df, ''Main''), (match_df, ''Match'')] of
           Some message \<Rightarrow> Inl message
         | None \<Rightarrow>
             let main_df = reset_index (sort_by_link (rows_of main_df));
                 match_df = reset_index (sort_by_link (rows_of match_df));
                 all_links = visit (map normalized main_df)
             in case port_corrections main_df of
                  Inl e \<Rightarrow> Inl (error_text e)
                | Inr corrections \<Rightarrow>
                    Inr \<lparr>analysis_df = analysis_results all_links main_df match_df,
                         missing_df = missing_results all_links main_df match_df,
                         ports_df = corrections\<rparr>)"

definition tab_dup_ports :: "pandas \<Rightarrow> sheet \<Rightarrow> string + dup_port_row list" where
  \<comment> \<open>second panel, lines 370 to 456. When a required header occurs twice, \<open>df[name]\<close> is a
      frame, not a column, and \<open>.str\<close> on it raises \<open>AttributeError\<close>, which the panel shows
      as \<open>Error processing file: ...\<close>\<close>
  "tab_dup_ports pd source =
     (let match_df = canonicalize_columns source;
          required_cols = [''Source'', ''Source Port'', ''Destination'', ''Destination Port''];
          missing = missing_columns required_cols match_df
      in if missing \<noteq> [] then Inl (''Missing columns: '' @ join '', '' missing)
         else if \<exists>c \<in> set required_cols. count_list (columns match_df) c > 1
           then Inl (''Error processing file: '' @ exception_text AttributeError)
         else Inr (find_duplicate_ports pd (rows_of match_df)))"

record duplicate_reports =
  summary_df :: "summary_row list"
  cleaned_df :: "row list"
  duplicates_df :: "row list"

definition with_link_id :: "sheet \<Rightarrow> row list \<Rightarrow> row list" where
  \<comment> \<open>lines 480 to 481: a frame without the column \<open>Link ID\<close> gets \<open>Row 1\<close>, \<open>Row 2\<close>, ...\<close>
  "with_link_id df rows =
     (if ''Link ID'' \<notin> set (columns df)
      then map (\<lambda>r. r\<lparr>Link_ID := Str (''Row '' @ str_nat (idx r + 1))\<rparr>) rows
      else rows)"

definition tab_remove_dup :: "(int list \<Rightarrow> nat list) \<Rightarrow> sheet \<Rightarrow> string + duplicate_reports" where
  \<comment> \<open>third panel, lines 470 to 587; \<open>argsort\<close> is numpy's, for the sort on
      \<open>Total Priority\<close>\<close>
  "tab_remove_dup argsort source =
     (let df = canonicalize_columns source;
          required_cols = [''Source'', ''Destination'', ''Source Port'', ''Destination Port''];
          missing = missing_columns required_cols df
      in if missing \<noteq> [] then Inl (''Missing columns: '' @ join '', '' missing)
         else
           let df = with_link_id df (rows_of df);
               (cleaned, duplicates) = remove_duplicate_links_with_priority argsort df
           in case summary_data df of
                Inl e \<Rightarrow> Inl (error_text e)
              | Inr summary \<Rightarrow>
                  Inr \<lparr>summary_df = summary, cleaned_df = cleaned, duplicates_df = duplicates\<rparr>)"

section \<open>Example datasets\<close>

definition link_row :: "nat \<Rightarrow> string \<Rightarrow> string \<Rightarrow> string \<Rightarrow> string \<Rightarrow> string \<Rightarrow> row" where
  \<comment> \<open>a row with all its cells filled in\<close>
  "link_row i s sp d dp lid =
     \<lparr>idx = i, Source = Str s, Source_Port = Str sp, Destination = Str d,
      Destination_Port = Str dp, Link_ID = Str lid\<rparr>"

definition example_links :: "row list" where
  \<comment> \<open>one link recorded three times, with total priorities 4, 6 and 6\<close>
  "example_links =
     [link_row 0 ''R1'' ''ae1'' ''R2'' ''ae2'' ''L1'',
      link_row 1 ''R2'' ''Eth1/1'' ''R1'' ''Eth2/1'' ''L2'',
      link_row 2 ''R1'' ''Eth1/2'' ''R2'' ''Eth2/2'' ''L3'']"

definition tie_links :: "row list" where
  \<comment> \<open>one link recorded twice, both rows of total priority 6\<close>
  "tie_links =
     [link_row 0 ''R1'' ''Eth1/1'' ''R2'' ''Eth2/1'' ''L1'',
      link_row 1 ''R2'' ''Eth2/2'' ''R1'' ''Eth1/2'' ''L2'']"

definition four_links :: "row list" where
  \<comment> \<open>one link recorded four times, from either end, with total priorities 4, 4, 6 and 6\<close>
  "four_links =
     [link_row 0 ''R1'' ''ae1'' ''R2'' ''ae2'' ''L1'',
      link_row 1 ''R2'' ''ae2'' ''R1'' ''ae1'' ''L2'',
      link_row 2 ''R1'' ''Eth1/1'' ''R2'' ''Eth2/1'' ''L3'',
      link_row 3 ''R2'' ''Eth2/1'' ''R1'' ''Eth1/1'' ''L4'']"


definition composite_links :: "row list" where
  \<comment> \<open>two rows with different devices and ports that give the same \<open>Source+Port\<close> and the
      same \<open>Dest+Port\<close>\<close>
  "composite_links =
     [link_row 0 ''A_B'' ''C'' ''X_Y'' ''Z'' ''L1'',
      link_row 1 ''A'' ''B_C'' ''X'' ''Y_Z'' ''L2'']"

definition priority_sheet :: sheet where
  \<comment> \<open>one link recorded twice, the second row with the better ports\<close>
  "priority_sheet =
     \<lparr>columns = [''Source'', ''Source Port'', ''Destination'', ''Destination Port'', ''Link ID''],
      cells = [[Str ''R1'', Str ''ae1'', Str ''R2'', Str ''ae2'', Str ''L1''],
               [Str ''R1'', Str ''Eth1/1'', Str ''R2'', Str ''Eth2/1'', Str ''L2'']]\<rparr>"

definition visit_reversed :: "'a list \<Rightarrow> 'a list" where
  \<comment> \<open>one order in which the set made of a column may be visited: every element once,
      the last one met in the column first\<close>
  "visit_reversed ks = rev (remdups ks)"

definition two_links_sheet :: sheet where
  \<comment> \<open>two links, in the order of their link keys\<close>
  "two_links_sheet =
     \<lparr>columns = [''Source'', ''Source Port'', ''Destination'', ''Destination Port''],
      cells = [[Str ''R1'', Str ''Eth1/1'', Str ''R2'', Str ''Eth2/1''],
               [Str ''R3'', Str ''Eth3/1'', Str ''R4'', Str ''Eth4/1'']]\<rparr>"

definition one_link_sheet :: sheet where
  \<comment> \<open>the link between \<open>R1\<close> and \<open>R2\<close>, recorded from the other end under other headers\<close>
  "one_link_sheet =
     \<lparr>columns = [''src'', ''src_port'', ''dest'', ''dest-port''],
      cells = [[Str ''SITE_R2'', Str ''ae2'', Str ''R1'', Str ''ae1'']]\<rparr>"

definition na_port_sheet :: sheet where
  \<comment> \<open>one link recorded twice, the source port cell empty in both rows\<close>
  "na_port_sheet =
     \<lparr>columns = [''Source'', ''Source Port'', ''Destination'', ''Destination Port''],
      cells = [[Str ''R1'', NA, Str ''R2'', Str ''Eth1/1''],
               [Str ''R1'', NA, Str ''R2'', Str ''Eth2/1'']]\<rparr>"

definition no_source_sheet :: sheet where
  \<comment> \<open>no header that stands for \<open>Source\<close>\<close>
  "no_source_sheet =
     \<lparr>columns = [''Device'', ''Source Port'', ''Destination'', ''Destination Port''],
      cells = [[Str ''R1'', Str ''Eth1/1'', Str ''R2'', Str ''Eth2/1'']]\<rparr>"

definition no_destination_sheet :: sheet where
  \<comment> \<open>no header that stands for \<open>Destination\<close> or \<open>Destination Port\<close>\<close>
  "no_destination_sheet =
     \<lparr>columns = [''Source'', ''Source Port'', ''Peer'', ''Peer Port''],
      cells = [[Str ''R1'', Str ''Eth1/1'', Str ''R2'', Str ''Eth2/1'']]\<rparr>"

section \<open>The examples of the specification\<close>

lemma spec_examples:
  "map (\<lambda>s. extract_match_part (PyStr s)) [''R1'', ''SITE_R1'', ''A_B_R1'', ''A_B_C_R1'']
     = [''R1'', ''R1'', ''B_R1'', ''C_R1'']"
  "map port_priority_score [Str ''Eth1/2'', Str ''AE10'', Str ''ae10'', Str ''Gi0/1'', NA]
     = [3, 2, 2, 1, 0]"
  "get_preferred_ports example_links (Str ''R5'') (Str ''R6'') = (None, None)"
  "map pc_original_source_port
     (case port_corrections [link_row 0 ''R1'' ''Eth1/1'' ''R2'' ''Eth2/1'' ''L1'',
                             link_row 1 ''R1'' ''ae1'' ''R2'' ''ae2'' ''L2''] of
        Inl e \<Rightarrow> [] | Inr recs \<Rightarrow> recs) = [''ae1'']"
  by code_simp+


section \<open>Properties of the extractor and the normalizer\<close>

lemma split_by_not_Nil: "split_by sep s \<noteq> []"
  by (induction s) (auto split: list.splits)

lemma split_on_no_sep: "c \<notin> set s \<Longrightarrow> split_on c s = [s]"
  unfolding split_on_def by (induction s) auto

lemma split_on_sep_length: "c \<in> set s \<Longrightarrow> 2 \<le> length (split_on c s)"
  unfolding split_on_def
proof (induction s)
  case Nil
  then show ?case by simp
next
  case (Cons x xs)
  show ?case
  proof (cases "x = c")
    case True
    have "1 \<le> length (split_by (\<lambda>x. x = c) xs)"
      using split_by_not_Nil [of "\<lambda>x. x = c" xs] by (cases "split_by (\<lambda>x. x = c) xs") auto
    with True show ?thesis by simp
  next
    case False
    with Cons.prems have "c \<in> set xs" by simp
    from Cons.IH [OF this] False show ?thesis
      by (cases "split_by (\<lambda>x. x = c) xs") auto
  qed
qed

lemma length_join_split: "length (join [c] (split_on c s)) = length s"
  unfolding split_on_def
proof (induction s)
  case Nil
  then show ?case by simp
next
  case (Cons x xs)
  show ?case
  proof (cases "split_by (\<lambda>x. x = c) xs")
    case Nil
    with split_by_not_Nil show ?thesis by blast
  next
    case (Cons p ps)
    with Cons.IH show ?thesis
      by (cases ps) (auto split: if_splits)
  qed
qed

lemma length_join_drop:
  "k < length ps \<Longrightarrow> length (join [c] (drop k ps)) + k \<le> length (join [c] ps)"
proof (induction k arbitrary: ps)
  case 0
  then show ?case by simp
next
  case (Suc k)
  then obtain p q rs where ps: "ps = p # q # rs"
    by (cases ps; cases "tl ps") auto
  with Suc.prems have "k < length (q # rs)" by simp
  from Suc.IH [OF this] ps show ?case by simp
qed

lemma token_rules_no_underscore: "CHR ''_'' \<notin> set s \<Longrightarrow> token_rules s = s"
  by (simp add: token_rules_def split_on_no_sep)

lemma token_rules_underscore_shorter:
  assumes "CHR ''_'' \<in> set s"
  shows "length (token_rules s) < length s"
proof -
  let ?ps = "split_on (CHR ''_'') s"
  have n: "2 \<le> length ?ps" using assms by (rule split_on_sep_length)
  have len: "length (join ''_'' ?ps) = length s" by (rule length_join_split)
  show ?thesis
  proof (cases "length ?ps = 2")
    case True
    then obtain p q where pq: "?ps = [p, q]"
      by (cases ?ps; cases "tl ?ps") auto
    with len have "length s = length p + 1 + length q" by simp
    moreover from pq have "token_rules s = q" by (simp add: token_rules_def)
    ultimately show ?thesis by simp
  next
    case False
    with n have gt: "2 < length ?ps" by simp
    then have "length ?ps - 2 < length ?ps" by simp
    from length_join_drop [OF this, of "CHR ''_''"] len
    have "length (join ''_'' (drop (length ?ps - 2) ?ps)) + (length ?ps - 2) \<le> length s"
      by simp
    moreover from gt False
    have "token_rules s = join ''_'' (drop (length ?ps - 2) ?ps)"
      by (simp add: token_rules_def Let_def)
    ultimately show ?thesis using gt by simp
  qed
qed

lemma sorted2_commute: "sorted2 a b = sorted2 b a"
  by (auto simp: sorted2_def)

text \<open>
  C7 (as the code has it). For an argument that is not a \<open>str\<close> the extractor returns
  \<open>str(x)\<close> as it is, without splitting it; the result is the one the underscore token rules
  give for \<open>str(x)\<close> exactly when \<open>str(x)\<close> holds no underscore.
\<close>

theorem extract_match_part_non_string:
  "extract_match_part (PyOther t) = py_str (PyOther t) \<and>
   (extract_match_part (PyOther t) = token_rules (py_str (PyOther t)) \<longleftrightarrow> CHR ''_'' \<notin> set t)"
proof -
  have "token_rules t \<noteq> t" if "CHR ''_'' \<in> set t"
    using token_rules_underscore_shorter [OF that] by auto
  then show ?thesis
    by (auto simp: token_rules_no_underscore)
qed

theorem extract_match_part_non_string_witness:
  "extract_match_part (PyOther ''7'') = ''7'' \<and>
   extract_match_part (PyOther ''7'') = token_rules (py_str (PyOther ''7''))"
  using extract_match_part_non_string [of "''7''"] by simp

text \<open>
  C7 (as the claim states it) fails: an object that is not a \<open>str\<close> and whose \<open>str()\<close> is
  \<open>SITE_R1\<close> comes back as \<open>SITE_R1\<close>, where the token rules give \<open>R1\<close>.
\<close>

theorem extract_match_part_non_string_counterexample:
  "extract_match_part (PyOther ''SITE_R1'') = ''SITE_R1'' \<and>
   token_rules (py_str (PyOther ''SITE_R1'')) = ''R1'' \<and>
   extract_match_part (PyOther ''SITE_R1'') \<noteq> token_rules (py_str (PyOther ''SITE_R1''))"
  by (simp add: token_rules_def split_on_def)

text \<open>
  C8. The link identity normalizer is symmetric: exchanging source and destination gives the
  same link key.
\<close>

theorem normalize_link_symmetric: "normalize_link a b = normalize_link b a"
  by (simp add: normalize_link_def Let_def sorted2_commute)


section \<open>Properties of the directional duplicate resolver\<close>

lemma select_rows_Nil [simp]: "select_rows [] df = []" "select_rows flags [] = []"
  by (simp_all add: select_rows_def)

lemma select_rows_Cons [simp]:
  "select_rows (b # flags) (x # df) = (if b then x # select_rows flags df else select_rows flags df)"
  by (simp add: select_rows_def)

lemma mset_select_rows_split:
  "mset (select_rows (map Not (duplicated_first seen (map f xs))) xs) +
   mset (select_rows (duplicated_first seen (map f xs)) xs) = mset xs"
  by (induction xs arbitrary: seen) auto

lemma first_keys_distinct:
  "distinct (map f (select_rows (map Not (duplicated_first seen (map f xs))) xs)) \<and>
   set (map f (select_rows (map Not (duplicated_first seen (map f xs))) xs)) = set (map f xs) - set seen"
  by (induction xs arbitrary: seen) auto






lemma sort_values_descending_eq:
  assumes "is_argsort argsort (rev (map key df))"
  shows "sort_values_descending argsort key df
           = rev (map (\<lambda>i. rev df ! i) (argsort (rev (map key df))))"
proof -
  let ?a = "argsort (rev (map key df))"
  from assms have "set ?a = set [0 ..< length df]"
    by (metis is_argsort_def length_map length_rev mset_eq_setD)
  then have lt: "i < length df" if "i \<in> set ?a" for i using that by simp
  have "map (\<lambda>i. df ! i) (map (\<lambda>i. rev [0 ..< length df] ! i) ?a) = map (\<lambda>i. rev df ! i) ?a"
  proof (rule map_ext [THEN trans [OF map_map]], rule impI)
    fix i assume "i \<in> set ?a"
    then have i: "i < length df" by (rule lt)
    then have "rev [0 ..< length df] ! i = length df - Suc i" by (simp add: rev_nth)
    then show "((\<lambda>i. df ! i) \<circ> (\<lambda>i. rev [0 ..< length df] ! i)) i = rev df ! i"
      using i by (simp add: rev_nth)
  qed
  then show ?thesis
    by (simp add: sort_values_descending_def Let_def rev_map)
qed

lemma sort_values_descending_sorts:
  assumes ok: "is_argsort argsort (rev (map key df))"
  shows "sorts_descending key df (sort_values_descending argsort key df)"
proof -
  let ?v = "rev (map key df)"
  let ?a = "argsort ?v"
  let ?rows = "map (\<lambda>i. rev df ! i) ?a"
  from ok have perm: "mset ?a = mset [0 ..< length df]"
    and srt: "sorted (map (\<lambda>i. ?v ! i) ?a)"
    by (simp_all add: is_argsort_def)
  from perm have "set ?a = set [0 ..< length df]" by (rule mset_eq_setD)
  then have lt: "i < length df" if "i \<in> set ?a" for i using that by simp
  have "mset ?rows = image_mset (\<lambda>i. rev df ! i) (mset ?a)" by simp
  also have "\<dots> = image_mset (\<lambda>i. rev df ! i) (mset [0 ..< length df])" using perm by simp
  also have "\<dots> = mset (map (\<lambda>i. rev df ! i) [0 ..< length (rev df)])" by simp
  also have "\<dots> = mset (rev df)" by (simp only: map_nth)
  finally have m: "mset ?rows = mset df" by simp
  have "key (rev df ! i) = ?v ! i" if "i \<in> set ?a" for i
  proof -
    from lt [OF that] have "i < length (rev df)" by simp
    then have "map key (rev df) ! i = key (rev df ! i)" by (rule nth_map)
    then show ?thesis by (simp add: rev_map)
  qed
  then have "map (\<lambda>i. key (rev df ! i)) ?a = map (\<lambda>i. ?v ! i) ?a"
    by (intro map_cong refl)
  then have "map key ?rows = map (\<lambda>i. ?v ! i) ?a" by (simp add: comp_def)
  with srt have "sorted (map key ?rows)" by (simp only:)
  then have "sorted_wrt (\<lambda>a b. key a \<le> key b) ?rows" by (simp only: sorted_map)
  then have "sorted_wrt (\<lambda>a b. key a \<ge> key b) (rev ?rows)" by (simp only: sorted_wrt_rev)
  with m show ?thesis
    unfolding sort_values_descending_eq [OF ok] sorts_descending_def by simp
qed

text \<open>
  C2. Whatever index array numpy returns for equal keys, the resolver splits the frame in
  two: every row goes to exactly one of \<open>cleaned\<close> and \<open>duplicates\<close> (so the sizes add up,
  and with distinct index labels no row is in both), no two rows of \<open>cleaned\<close> have the same
  link key, and every link key of the input has its row in \<open>cleaned\<close>.
\<close>

theorem resolver_partition:
  assumes ok: "is_argsort argsort (rev (map total_priority df))"
  shows "case remove_duplicate_links_with_priority argsort df of
           (cleaned, duplicates) \<Rightarrow>
             mset cleaned + mset duplicates = mset df \<and>
             length cleaned + length duplicates = length df \<and>
             distinct (map normalized cleaned) \<and>
             set (map normalized cleaned) = set (map normalized df) \<and>
             (distinct (map idx df) \<longrightarrow> set cleaned \<inter> set duplicates = {})"
proof -
  let ?s = "sort_values_descending argsort total_priority df"
  let ?c = "select_rows (map Not (duplicated_first [] (map normalized ?s))) ?s"
  let ?d = "select_rows (duplicated_first [] (map normalized ?s)) ?s"
  from sort_values_descending_sorts [OF ok]
  have perm: "mset ?s = mset df" by (simp add: sorts_descending_def)
  have part: "mset ?c + mset ?d = mset df"
    using mset_select_rows_split [where f = normalized and seen = "[]" and xs = ?s] perm by simp
  then have "size (mset ?c + mset ?d) = size (mset df)" by simp
  then have len: "length ?c + length ?d = length df" by simp
  have dist: "distinct (map normalized ?c)"
    using first_keys_distinct [where f = normalized and seen = "[]" and xs = ?s] by simp
  have "set (map normalized ?s) = set (map normalized df)"
    using perm by (metis mset_map set_mset_mset)
  then have keys: "set (map normalized ?c) = set (map normalized df)"
    using first_keys_distinct [where f = normalized and seen = "[]" and xs = ?s] by simp
  have disj: "set ?c \<inter> set ?d = {}" if "distinct (map idx df)"
  proof -
    from that have "distinct df" by (simp add: distinct_map)
    then have "distinct (?c @ ?d)"
      using part by (metis mset_append mset_eq_imp_distinct_iff)
    then show ?thesis by simp
  qed
  from part len dist keys disj show ?thesis
    by (simp add: remove_duplicate_links_with_priority_def Let_def)
qed

theorem resolver_partition_witness:
  "is_argsort numpy_argsort (rev (map total_priority example_links)) \<and>
   distinct (map idx example_links) \<and>
   (case remove_duplicate_links_with_priority numpy_argsort example_links of
      (cleaned, duplicates) \<Rightarrow>
        mset cleaned + mset duplicates = mset example_links \<and>
        length cleaned + length duplicates = length example_links \<and>
        distinct (map normalized cleaned) \<and>
        set (map normalized cleaned) = set (map normalized example_links) \<and>
        set cleaned \<inter> set duplicates = {})"
proof -
  have tp: "rev (map total_priority example_links) = [6, 6, 4]" by code_simp
  have a: "numpy_argsort [6, 6, 4] = [2, 0, 1]" by code_simp
  have h: "is_argsort numpy_argsort (rev (map total_priority example_links))"
    unfolding tp is_argsort_def a by (simp add: upt_rec)
  have d: "distinct (map idx example_links)" by code_simp
  from resolver_partition [where argsort = numpy_argsort, OF h] h d show ?thesis
    by (auto split: prod.splits)
qed






text \<open>
  With fewer than eighteen rows the quicksort is an insertion sort and keeps rows of equal
  priority in their order: of two tied rows it keeps the first, and on \<open>four_links\<close> it
  keeps row 2. Which of the tied rows the resolver keeps depends on the sort numpy runs.
\<close>

lemma two_tied_rows_keep_first:
  "fst (remove_duplicate_links_with_priority numpy_argsort tie_links) = [tie_links ! 0]"
  "fst (remove_duplicate_links_with_priority numpy_simd_argsort tie_links) = [tie_links ! 0]"
  "fst (remove_duplicate_links_with_priority numpy_argsort four_links) = [four_links ! 2]"
  by code_simp+


section \<open>Properties of the duplicate port detector\<close>

lemma count_list_two:
  assumes "i < j" "j < length xs" "xs ! i = k" "xs ! j = k"
  shows "1 < count_list xs k"
proof -
  from assms have i: "i < length xs" by simp
  have xs: "xs = take i xs @ xs ! i # drop (Suc i) xs"
    using i by (rule id_take_nth_drop)
  from assms have "drop (Suc i) xs ! (j - Suc i) = k" by simp
  moreover from assms have "j - Suc i < length (drop (Suc i) xs)" by simp
  ultimately have "k \<in> set (drop (Suc i) xs)" by (metis nth_mem)
  then have "count_list (drop (Suc i) xs) k \<noteq> 0" by (simp add: count_list_0_iff)
  then have "0 < count_list (drop (Suc i) xs) k" by simp
  moreover have "count_list xs k = count_list (take i xs) k + count_list (xs ! i # drop (Suc i) xs) k"
    using xs by (metis count_list_append)
  ultimately show ?thesis using assms(3) by simp
qed

lemma count_list_two_neq:
  assumes "i \<noteq> j" "i < length xs" "j < length xs" "xs ! i = k" "xs ! j = k"
  shows "1 < count_list xs k"
proof (cases "i < j")
  case True
  with assms show ?thesis by (blast intro: count_list_two)
next
  case False
  with assms have "j < i" by simp
  with assms show ?thesis by (blast intro: count_list_two)
qed

lemma count_list_other_position:
  assumes i: "i < length xs" and c: "1 < count_list xs (xs ! i)"
  shows "\<exists>j < length xs. j \<noteq> i \<and> xs ! j = xs ! i"
proof -
  let ?k = "xs ! i"
  have xs: "xs = take i xs @ ?k # drop (Suc i) xs"
    using i by (rule id_take_nth_drop)
  have "count_list xs ?k = count_list (take i xs) ?k + count_list (?k # drop (Suc i) xs) ?k"
    using xs by (metis count_list_append)
  with c have "count_list (take i xs) ?k \<noteq> 0 \<or> count_list (drop (Suc i) xs) ?k \<noteq> 0"
    by auto
  then have "?k \<in> set (take i xs) \<or> ?k \<in> set (drop (Suc i) xs)"
    by (simp add: count_list_0_iff)
  then show ?thesis
  proof
    assume "?k \<in> set (take i xs)"
    then obtain j where "j < length (take i xs)" "take i xs ! j = ?k"
      by (auto simp: in_set_conv_nth)
    with i have "j < length xs \<and> j \<noteq> i \<and> xs ! j = ?k" by simp
    then show ?thesis by blast
  next
    assume "?k \<in> set (drop (Suc i) xs)"
    then obtain m where m: "m < length (drop (Suc i) xs)" "drop (Suc i) xs ! m = ?k"
      by (auto simp: in_set_conv_nth)
    with i have "Suc i + m < length xs \<and> Suc i + m \<noteq> i \<and> xs ! (Suc i + m) = ?k" by simp
    then show ?thesis by blast
  qed
qed

lemma counted_twice_iff:
  assumes i: "i < length df"
  shows "counted_twice (map f df) (f (df ! i)) \<longleftrightarrow>
           (\<exists>k. f (df ! i) = Some k \<and> (\<exists>j < length df. j \<noteq> i \<and> f (df ! j) = Some k))"
proof
  assume ct: "counted_twice (map f df) (f (df ! i))"
  then obtain k where k: "f (df ! i) = Some k" by (auto simp: counted_twice_def)
  from ct i have "1 < count_list (map f df) (map f df ! i)" by (simp add: counted_twice_def)
  from count_list_other_position [OF _ this] i
  obtain j where "j < length df" "j \<noteq> i" "map f df ! j = map f df ! i" by auto
  with i k have "j < length df \<and> j \<noteq> i \<and> f (df ! j) = Some k" by simp
  with k show "\<exists>k. f (df ! i) = Some k \<and> (\<exists>j < length df. j \<noteq> i \<and> f (df ! j) = Some k)"
    by blast
next
  assume "\<exists>k. f (df ! i) = Some k \<and> (\<exists>j < length df. j \<noteq> i \<and> f (df ! j) = Some k)"
  then obtain k j where k: "f (df ! i) = Some k" and j: "j < length df" "j \<noteq> i" "f (df ! j) = Some k"
    by blast
  have "1 < count_list (map f df) (Some k)"
    by (rule count_list_two_neq [of i j]) (use i j k in simp_all)
  with k show "counted_twice (map f df) (f (df ! i))" by (simp add: counted_twice_def)
qed

text \<open>
  C10. Under either pandas release the duplicate flags of a row depend on the row only
  through the texts \<open>device + "_" + port\<close>: rows with the same text have the same flag. A
  row is flagged exactly when its text is present and another row of the frame has the same
  text, and the detector returns exactly the flagged rows, so a row alone in its frame is
  not returned. The rows \<open>("A_B", "C")\<close> and \<open>("A", "B_C")\<close> have different devices and
  ports and the same text \<open>A_B_C\<close>; both are flagged.
\<close>

theorem duplicate_flag_by_concatenation:
  "(source_plus_port pd r = source_plus_port pd r' \<longrightarrow>
      source_port_duplicate pd df r = source_port_duplicate pd df r') \<and>
   (dest_plus_port pd r = dest_plus_port pd r' \<longrightarrow>
      destination_port_duplicate pd df r = destination_port_duplicate pd df r') \<and>
   (i < length df \<longrightarrow>
      (source_port_duplicate pd df (df ! i) \<longleftrightarrow>
         (\<exists>k. source_plus_port pd (df ! i) = Some k \<and>
              (\<exists>j < length df. j \<noteq> i \<and> source_plus_port pd (df ! j) = Some k))) \<and>
      (destination_port_duplicate pd df (df ! i) \<longleftrightarrow>
         (\<exists>k. dest_plus_port pd (df ! i) = Some k \<and>
              (\<exists>j < length df. j \<noteq> i \<and> dest_plus_port pd (df ! j) = Some k)))) \<and>
   map dp_row (find_duplicate_ports pd df)
     = filter (\<lambda>r. source_port_duplicate pd df r \<or> destination_port_duplicate pd df r) df \<and>
   map dp_source_port_duplicate (find_duplicate_ports pd df)
     = map (source_port_duplicate pd df) (map dp_row (find_duplicate_ports pd df)) \<and>
   map dp_destination_port_duplicate (find_duplicate_ports pd df)
     = map (destination_port_duplicate pd df) (map dp_row (find_duplicate_ports pd df)) \<and>
   (Source (composite_links ! 0), Source_Port (composite_links ! 0)) = (Str ''A_B'', Str ''C'') \<and>
   (Source (composite_links ! 1), Source_Port (composite_links ! 1)) = (Str ''A'', Str ''B_C'') \<and>
   map dp_source_plus_port (find_duplicate_ports pd composite_links)
     = [Some ''A_B_C'', Some ''A_B_C''] \<and>
   map dp_row (find_duplicate_ports pd composite_links) = composite_links \<and>
   map dp_source_port_duplicate (find_duplicate_ports pd composite_links) = [True, True] \<and>
   map dp_dest_plus_port (find_duplicate_ports pd composite_links)
     = [Some ''X_Y_Z'', Some ''X_Y_Z''] \<and>
   map dp_destination_port_duplicate (find_duplicate_ports pd composite_links) = [True, True] \<and>
   find_duplicate_ports pd [composite_links ! 0] = []"
proof -
  have g1: "source_plus_port pd r = source_plus_port pd r' \<longrightarrow>
      source_port_duplicate pd df r = source_port_duplicate pd df r'"
    by (simp add: source_port_duplicate_def)
  have g2: "dest_plus_port pd r = dest_plus_port pd r' \<longrightarrow>
      destination_port_duplicate pd df r = destination_port_duplicate pd df r'"
    by (simp add: destination_port_duplicate_def)
  have g3: "i < length df \<longrightarrow>
      (source_port_duplicate pd df (df ! i) \<longleftrightarrow>
         (\<exists>k. source_plus_port pd (df ! i) = Some k \<and>
              (\<exists>j < length df. j \<noteq> i \<and> source_plus_port pd (df ! j) = Some k))) \<and>
      (destination_port_duplicate pd df (df ! i) \<longleftrightarrow>
         (\<exists>k. dest_plus_port pd (df ! i) = Some k \<and>
              (\<exists>j < length df. j \<noteq> i \<and> dest_plus_port pd (df ! j) = Some k)))"
    unfolding source_port_duplicate_def destination_port_duplicate_def
    using counted_twice_iff [of i df "source_plus_port pd"]
      counted_twice_iff [of i df "dest_plus_port pd"] by blast
  have g4: "map dp_row (find_duplicate_ports pd df)
     = filter (\<lambda>r. source_port_duplicate pd df r \<or> destination_port_duplicate pd df r) df"
    by (simp add: find_duplicate_ports_def comp_def)
  have g5: "map dp_source_port_duplicate (find_duplicate_ports pd df)
     = map (source_port_duplicate pd df) (map dp_row (find_duplicate_ports pd df))"
    by (simp add: find_duplicate_ports_def comp_def)
  have g6: "map dp_destination_port_duplicate (find_duplicate_ports pd df)
     = map (destination_port_duplicate pd df) (map dp_row (find_duplicate_ports pd df))"
    by (simp add: find_duplicate_ports_def comp_def)
  have ex: "(Source (composite_links ! 0), Source_Port (composite_links ! 0)) = (Str ''A_B'', Str ''C'') \<and>
   (Source (composite_links ! 1), Source_Port (composite_links ! 1)) = (Str ''A'', Str ''B_C'') \<and>
   map dp_source_plus_port (find_duplicate_ports pd composite_links)
     = [Some ''A_B_C'', Some ''A_B_C''] \<and>
   map dp_row (find_duplicate_ports pd composite_links) = composite_links \<and>
   map dp_source_port_duplicate (find_duplicate_ports pd composite_links) = [True, True] \<and>
   map dp_dest_plus_port (find_duplicate_ports pd composite_links)
     = [Some ''X_Y_Z'', Some ''X_Y_Z''] \<and>
   map dp_destination_port_duplicate (find_duplicate_ports pd composite_links) = [True, True] \<and>
   find_duplicate_ports pd [composite_links ! 0] = []"
    by (cases pd; hypsubst; code_simp)
  from g1 g2 g3 g4 g5 g6 ex show ?thesis by blast
qed


theorem duplicate_flag_by_concatenation_witness:
  "source_plus_port Pandas2 (composite_links ! 0) = source_plus_port Pandas2 (composite_links ! 1) \<and>
   dest_plus_port Pandas2 (composite_links ! 0) = dest_plus_port Pandas2 (composite_links ! 1) \<and>
   Source (composite_links ! 0) \<noteq> Source (composite_links ! 1) \<and>
   Source_Port (composite_links ! 0) \<noteq> Source_Port (composite_links ! 1) \<and>
   (0::nat) < length composite_links \<and>
   source_port_duplicate Pandas2 composite_links (composite_links ! 0) \<and>
   source_port_duplicate Pandas2 composite_links (composite_links ! 0)
     = source_port_duplicate Pandas2 composite_links (composite_links ! 1) \<and>
   destination_port_duplicate Pandas2 composite_links (composite_links ! 0)
     = destination_port_duplicate Pandas2 composite_links (composite_links ! 1) \<and>
   find_duplicate_ports Pandas2 [composite_links ! 0] = []"
proof -
  have s: "source_plus_port Pandas2 (composite_links ! 0) = Some ''A_B_C''"
    "source_plus_port Pandas2 (composite_links ! 1) = Some ''A_B_C''"
    by code_simp+
  have d: "dest_plus_port Pandas2 (composite_links ! 0)
             = dest_plus_port Pandas2 (composite_links ! 1)"
    by code_simp
  have n: "Source (composite_links ! 0) \<noteq> Source (composite_links ! 1) \<and>
           Source_Port (composite_links ! 0) \<noteq> Source_Port (composite_links ! 1)"
    by (simp add: composite_links_def link_row_def)
  have l: "(0::nat) < length composite_links" "(1::nat) < length composite_links"
    by (simp_all add: composite_links_def)
  note inst = duplicate_flag_by_concatenation
         [of Pandas2 "composite_links ! 0" "composite_links ! 1" composite_links 0]
  from l(2) s(2) have "(1::nat) < length composite_links \<and> (1::nat) \<noteq> 0 \<and>
      source_plus_port Pandas2 (composite_links ! 1) = Some ''A_B_C''"
    by simp
  then have "\<exists>j < length composite_links. j \<noteq> 0 \<and>
      source_plus_port Pandas2 (composite_links ! j) = Some ''A_B_C''"
    by blast
  with s(1) have "\<exists>k. source_plus_port Pandas2 (composite_links ! 0) = Some k \<and>
      (\<exists>j < length composite_links. j \<noteq> 0 \<and>
         source_plus_port Pandas2 (composite_links ! j) = Some k)"
    by blast
  with inst l(1) have f: "source_port_duplicate Pandas2 composite_links (composite_links ! 0)"
    by blast
  from inst s have e1: "source_port_duplicate Pandas2 composite_links (composite_links ! 0)
     = source_port_duplicate Pandas2 composite_links (composite_links ! 1)"
    by simp
  from inst d have e2: "destination_port_duplicate Pandas2 composite_links (composite_links ! 0)
     = destination_port_duplicate Pandas2 composite_links (composite_links ! 1)"
    by blast
  from inst have lone: "find_duplicate_ports Pandas2 [composite_links ! 0] = []" by blast
  from s d n l(1) f e1 e2 lone show ?thesis by simp
qed

lemma missing_port_keys_by_release:
  "map dp_source_plus_port (find_duplicate_ports Pandas2 (rows_of na_port_sheet))
     = [Some ''R1_<NA>'', Some ''R1_<NA>'']"
  "find_duplicate_ports Pandas3 (rows_of na_port_sheet) = []"
  by code_simp+

lemma repeated_header_raises:
  "tab_dup_ports pd (two_links_sheet\<lparr>columns := [''Source'', ''src'', ''Destination'', ''Destination Port'', ''Source Port'']\<rparr>)
     = Inl (''Error processing file: '' @ exception_text AttributeError)"
  by (cases pd; hypsubst; code_simp)

section \<open>The duplicate links summary against the resolver\<close>

text \<open>
  C3 (the code at a failing input). A link is recorded twice, row \<open>L1\<close> with \<open>ae\<close> ports
  (total priority 4) and then row \<open>L2\<close> with \<open>Eth\<close> ports (total priority 6). The resolver
  keeps \<open>L2\<close> and removes \<open>L1\<close>; the summary takes the first row of the frame as the kept one
  and lists \<open>L2\<close> under \<open>To Be Removed\<close>.
\<close>

theorem summary_marks_kept_row_for_removal:
  "tab_remove_dup numpy_argsort priority_sheet =
     Inr \<lparr>summary_df =
            [\<lparr>sm_link_name = ''R1 to R2'', sm_link_ids = ''L1, L2'',
              sm_source = Str ''R1'', sm_source_port = Str ''ae1'',
              sm_destination = Str ''R2'', sm_destination_port = Str ''ae2'',
              sm_to_be_removed = ''L2''\<rparr>],
          cleaned_df = [link_row 1 ''R1'' ''Eth1/1'' ''R2'' ''Eth2/1'' ''L2''],
          duplicates_df = [link_row 0 ''R1'' ''ae1'' ''R2'' ''ae2'' ''L1'']\<rparr>"
  by code_simp



section \<open>Properties of the cross-dataset matcher\<close>

text \<open>
  The loop of the matcher: whatever order the set of link keys is visited in, every link
  key of dataset A has exactly one record, every record is the record of a link key of A,
  and its status is \<open>Missing\<close> exactly when the key is not a link key of dataset B. The
  panel shows these records when it gets as far as showing reports.
\<close>

lemma analyse_link_present:
  assumes "k \<in> set (map normalized main_df)"
  shows "\<exists>a. fst (analyse_link main_df match_links k) = [a] \<and>
             ar_normalized_link a = k \<and>
             ar_match_status a = (if k \<in> match_links then ''Found'' else ''Missing'')"
proof -
  from assms have "filter (\<lambda>r. normalized r = k) main_df \<noteq> []"
    by (auto simp: filter_empty_conv)
  then obtain original rest where "filter (\<lambda>r. normalized r = k) main_df = original # rest"
    by (cases "filter (\<lambda>r. normalized r = k) main_df") auto
  then show ?thesis
    by (simp add: analyse_link_def Let_def split: prod.splits)
qed

lemma analysis_results_keys:
  assumes "set all_links \<subseteq> set (map normalized main_df)"
  shows "map ar_normalized_link (analysis_results all_links main_df match_df) = all_links \<and>
         map ar_match_status (analysis_results all_links main_df match_df) =
           map (\<lambda>k. if k \<in> set (map normalized match_df) then ''Found'' else ''Missing'') all_links"
  using assms
proof (induction all_links)
  case Nil
  then show ?case by (simp add: analysis_results_def)
next
  case (Cons k ks)
  from Cons.prems have k: "k \<in> set (map normalized main_df)"
    and ks: "set ks \<subseteq> set (map normalized main_df)" by simp_all
  from analyse_link_present [OF k, of "set (map normalized match_df)"] obtain a
    where a: "fst (analyse_link main_df (set (map normalized match_df)) k) = [a]"
      "ar_normalized_link a = k"
      "ar_match_status a = (if k \<in> set (map normalized match_df) then ''Found'' else ''Missing'')"
    by blast
  have "analysis_results (k # ks) main_df match_df = a # analysis_results ks main_df match_df"
    using a(1) by (simp add: analysis_results_def)
  with Cons.IH [OF ks] a(2,3) show ?case by simp
qed

lemma length_filter_key: "length (filter (\<lambda>a. f a = k) xs) = count_list (map f xs) k"
  by (induction xs) auto

lemma count_list_distinct: "distinct xs \<Longrightarrow> x \<in> set xs \<Longrightarrow> count_list xs x = 1"
  by (induction xs) auto

lemma analysis_results_one_record_per_link:
  assumes it: "iterates all_links (set (map normalized main_df))"
  shows "(\<forall>k \<in> set (map normalized main_df).
            length (filter (\<lambda>a. ar_normalized_link a = k)
                      (analysis_results all_links main_df match_df)) = 1) \<and>
         (\<forall>a \<in> set (analysis_results all_links main_df match_df).
            ar_normalized_link a \<in> set (map normalized main_df) \<and>
            (ar_match_status a = ''Missing'' \<longleftrightarrow>
               ar_normalized_link a \<notin> set (map normalized match_df)) \<and>
            (ar_match_status a = ''Found'' \<longleftrightarrow>
               ar_normalized_link a \<in> set (map normalized match_df)))"
proof -
  let ?res = "analysis_results all_links main_df match_df"
  let ?st = "\<lambda>k. if k \<in> set (map normalized match_df) then ''Found'' else ''Missing''"
  from it have d: "distinct all_links" and s: "set all_links = set (map normalized main_df)"
    by (simp_all add: iterates_def)
  from s have "set all_links \<subseteq> set (map normalized main_df)" by simp
  from analysis_results_keys [OF this, of match_df]
  have keys: "map ar_normalized_link ?res = all_links"
    and stat: "map ar_match_status ?res = map ?st all_links" by simp_all
  have one: "length (filter (\<lambda>a. ar_normalized_link a = k) ?res) = 1"
    if "k \<in> set (map normalized main_df)" for k
  proof -
    have "length (filter (\<lambda>a. ar_normalized_link a = k) ?res)
            = count_list (map ar_normalized_link ?res) k"
      by (rule length_filter_key)
    also have "\<dots> = count_list all_links k"
      unfolding keys ..
    also have "\<dots> = 1"
      using d that s by (simp add: count_list_distinct)
    finally show ?thesis .
  qed
  have each: "ar_normalized_link a \<in> set (map normalized main_df) \<and>
              ar_match_status a = ?st (ar_normalized_link a)"
    if "a \<in> set ?res" for a
  proof -
    from that obtain i where i: "i < length ?res" "?res ! i = a"
      by (auto simp: in_set_conv_nth)
    from i(1) keys have il: "i < length all_links" by (metis length_map)
    have "ar_normalized_link a = map ar_normalized_link ?res ! i" using i by simp
    then have ka: "ar_normalized_link a = all_links ! i" using keys by simp
    have "ar_match_status a = map ar_match_status ?res ! i" using i by simp
    then have "ar_match_status a = ?st (all_links ! i)" using stat il by simp
    moreover from il s have "all_links ! i \<in> set (map normalized main_df)"
      by (metis nth_mem)
    ultimately show ?thesis using ka by simp
  qed
  from one each show ?thesis by auto
qed



lemma tab_main_reports:
  assumes "tab_main sort_by_link visit main_db match_db = Inr reports"
  shows "analysis_df reports =
           analysis_results
             (visit (map normalized
                (reset_index (sort_by_link (rows_of (canonicalize_columns main_db))))))
             (reset_index (sort_by_link (rows_of (canonicalize_columns main_db))))
             (reset_index (sort_by_link (rows_of (canonicalize_columns match_db))))"
proof -
  let ?main = "reset_index (sort_by_link (rows_of (canonicalize_columns main_db)))"
  let ?match = "reset_index (sort_by_link (rows_of (canonicalize_columns match_db)))"
  from assms obtain corrections where
    "reports = \<lparr>analysis_df = analysis_results (visit (map normalized ?main)) ?main ?match,
                missing_df = missing_results (visit (map normalized ?main)) ?main ?match,
                ports_df = corrections\<rparr>"
    unfolding tab_main_def Let_def
    by (cases "first_missing [''Source'', ''Source Port'', ''Destination'', ''Destination Port'']
                 [(canonicalize_columns main_db, ''Main''), (canonicalize_columns match_db, ''Match'')]";
        cases "port_corrections ?main") auto
  then show ?thesis by simp
qed




lemma main_analysis_one_record_per_link:
  assumes panel: "tab_main sort_by_link visit main_db match_db = Inr reports"
    and main: "main_df = reset_index (sort_by_link (rows_of (canonicalize_columns main_db)))"
    and match: "match_df = reset_index (sort_by_link (rows_of (canonicalize_columns match_db)))"
    and it: "iterates (visit (map normalized main_df)) (set (map normalized main_df))"
  shows "(\<forall>k \<in> set (map normalized main_df).
            length (filter (\<lambda>a. ar_normalized_link a = k) (analysis_df reports)) = 1) \<and>
         (\<forall>a \<in> set (analysis_df reports).
            ar_normalized_link a \<in> set (map normalized main_df) \<and>
            (ar_match_status a = ''Missing'' \<longleftrightarrow>
               ar_normalized_link a \<notin> set (map normalized match_df)) \<and>
            (ar_match_status a = ''Found'' \<longleftrightarrow>
               ar_normalized_link a \<in> set (map normalized match_df)))"
  using analysis_results_one_record_per_link [OF it, of match_df]
  unfolding tab_main_reports [OF panel] main match .

text \<open>
  C4 (the code at a failing input). Dataset A records the link between R1 and R2 twice, with
  an empty source port cell; it has all required columns. The port correction loop, which
  runs before the matcher, raises on the missing port; the panel shows the error message and
  no main analysis, so the link key of A has no record in it.
\<close>

theorem main_analysis_lost_on_missing_port:
  "missing_columns [''Source'', ''Source Port'', ''Destination'', ''Destination Port'']
     (canonicalize_columns na_port_sheet) = [] \<and>
   map normalized (rows_of (canonicalize_columns na_port_sheet))
     = [[''R1'', ''R2''], [''R1'', ''R2'']] \<and>
   tab_main (sort_key normalized) remdups na_port_sheet two_links_sheet
     = Inl ''Error: boolean value of NA is ambiguous'' \<and>
   (case tab_main (sort_key normalized) remdups na_port_sheet two_links_sheet of
      Inl message \<Rightarrow> []
    | Inr reports \<Rightarrow> analysis_df reports) = []"
  by code_simp


text \<open>
  C5 (the code at a failing input). Dataset A holds the links R1 to R2 and R3 to R4 and is
  sorted by link key before the analysis. The analysis loop runs over a set of the keys; when
  the set is visited with the key of R3 to R4 first, the main analysis lists R3 to R4 before
  R1 to R2, which is not the order of the link keys.
\<close>

theorem main_analysis_in_visit_order:
  "map normalized (reset_index (sort_key normalized (rows_of two_links_sheet)))
     = [[''R1'', ''R2''], [''R3'', ''R4'']] \<and>
   sorted [[''R1'', ''R2''], [''R3'', ''R4'']] \<and>
   iterates (visit_reversed [[''R1'', ''R2''], [''R3'', ''R4'']])
     (set [[''R1'', ''R2''], [''R3'', ''R4'']]) \<and>
   (case tab_main (sort_key normalized) visit_reversed two_links_sheet two_links_sheet of
      Inl message \<Rightarrow> []
    | Inr reports \<Rightarrow> map ar_normalized_link (analysis_df reports))
     = [[''R3'', ''R4''], [''R1'', ''R2'']] \<and>
   \<not> sorted [[''R3'', ''R4''], [''R1'', ''R2'']]"
proof -
  have a: "map normalized (reset_index (sort_key normalized (rows_of two_links_sheet)))
             = [[''R1'', ''R2''], [''R3'', ''R4'']]"
    by code_simp
  have b: "sorted [[''R1'', ''R2''], [''R3'', ''R4'']]" by code_simp
  have c: "iterates (visit_reversed [[''R1'', ''R2''], [''R3'', ''R4'']])
             (set [[''R1'', ''R2''], [''R3'', ''R4'']])"
    by (simp add: iterates_def visit_reversed_def) blast
  have d: "(case tab_main (sort_key normalized) visit_reversed two_links_sheet two_links_sheet of
              Inl message \<Rightarrow> []
            | Inr reports \<Rightarrow> map ar_normalized_link (analysis_df reports))
             = [[''R3'', ''R4''], [''R1'', ''R2'']]"
    by code_simp
  have e: "\<not> sorted [[''R3'', ''R4''], [''R1'', ''R2'']]" by code_simp
  from a b c d e show ?thesis by blast
qed

section \<open>Properties of the port correction analyzer\<close>

text \<open>
  A group of one row yields no correction. For a larger group, when neither preferred port is
  the missing value, the group yields one correction for each of its rows whose source or
  destination port text differs from the corrected one.
\<close>

lemma group_corrections_single: "length grp \<le> 1 \<Longrightarrow> group_corrections main_df grp = Inr []"
  by (simp add: group_corrections_def)

lemma collect_counts:
  assumes "\<forall>x \<in> set xs. \<exists>ys. f x = Inr ys \<and> length ys = (if P x then 1 else 0)"
  shows "\<exists>zs. collect f xs = Inr zs \<and> length zs = length (filter P xs)"
  using assms
proof (induction xs)
  case Nil
  then show ?case by simp
next
  case (Cons x xs)
  then obtain ys where ys: "f x = Inr ys" "length ys = (if P x then 1 else 0)" by auto
  from Cons obtain zs where zs: "collect f xs = Inr zs" "length zs = length (filter P xs)"
    by auto
  from ys zs show ?case by simp
qed

lemma row_correction_emits:
  assumes "corrected_str corr_src_port = Inr corr_src"
    and "corrected_str corr_dst_port = Inr corr_dst"
  shows "\<exists>recs. row_correction src dst corr_src_port corr_dst_port row = Inr recs \<and>
           length recs =
             (if strip (cell_str (Source_Port row)) \<noteq> corr_src \<or>
                 strip (cell_str (Destination_Port row)) \<noteq> corr_dst then 1 else 0)"
  using assms by (simp add: row_correction_def Let_def)

lemma group_corrections_emits:
  assumes grp: "grp = sample_row # rest"
    and ports: "get_preferred_ports main_df (Source sample_row) (Destination sample_row)
                  = (corr_src_port, corr_dst_port)"
    and src: "corrected_str corr_src_port = Inr corr_src"
    and dst: "corrected_str corr_dst_port = Inr corr_dst"
  shows "\<exists>recs. group_corrections main_df grp = Inr recs \<and>
           length recs =
             (if length grp > 1
              then length (filter (\<lambda>row. strip (cell_str (Source_Port row)) \<noteq> corr_src \<or>
                                        strip (cell_str (Destination_Port row)) \<noteq> corr_dst) grp)
              else 0)"
proof (cases "length grp > 1")
  case False
  then show ?thesis by (simp add: group_corrections_def)
next
  case True
  let ?f = "row_correction (Source sample_row) (Destination sample_row) corr_src_port corr_dst_port"
  have "\<exists>zs. collect ?f grp = Inr zs \<and>
             length zs = length (filter (\<lambda>row. strip (cell_str (Source_Port row)) \<noteq> corr_src \<or>
                                        strip (cell_str (Destination_Port row)) \<noteq> corr_dst) grp)"
    by (rule collect_counts) (use row_correction_emits [OF src dst] in blast)
  moreover have "group_corrections main_df (sample_row # rest) = collect ?f (sample_row # rest)"
    using True ports unfolding grp by (simp add: group_corrections_def del: collect.simps)
  then have "group_corrections main_df grp = collect ?f grp" unfolding grp .
  ultimately show ?thesis using True by simp
qed

text \<open>
  C6 (the code at a failing input). A link is recorded twice with an empty source port cell
  and two different destination ports. The preferred source port is the missing value; the
  test \<open>if corr_src_port\<close> raises on it, the panel shows the error message and no correction
  record is produced, where the claim has the missing corrected port shown as \<open>N/A\<close> and a
  record for each of the two rows.
\<close>

theorem port_corrections_missing_port_raises:
  "map normalized (rows_of na_port_sheet) = [[''R1'', ''R2''], [''R1'', ''R2'']] \<and>
   get_preferred_ports (rows_of na_port_sheet) (Str ''R1'') (Str ''R2'')
     = (Some NA, Some (Str ''Eth1/1'')) \<and>
   port_corrections (rows_of na_port_sheet) = Inl TypeError \<and>
   tab_main (sort_key normalized) remdups na_port_sheet na_port_sheet
     = Inl ''Error: boolean value of NA is ambiguous''"
  by code_simp

section \<open>Properties of the required-column check\<close>

text \<open>
  C9 (as the code has it). A panel whose dataset lacks a required column after
  canonicalization shows an error message and no report. The duplicate port panel and the
  duplicate link panel name every missing column of their dataset. The link analysis panel
  checks Main first and stops there: it names every missing column of Main when Main lacks
  one, and every missing column of Match when Main lacks none and Match lacks one.
\<close>

theorem missing_columns_abort:
  "(missing_columns [''Source'', ''Source Port'', ''Destination'', ''Destination Port'']
      (canonicalize_columns source) \<noteq> [] \<longrightarrow>
    tab_dup_ports pd source =
      Inl (''Missing columns: '' @ join '', ''
             (missing_columns [''Source'', ''Source Port'', ''Destination'', ''Destination Port'']
                (canonicalize_columns source)))) \<and>
   (missing_columns [''Source'', ''Destination'', ''Source Port'', ''Destination Port'']
      (canonicalize_columns source) \<noteq> [] \<longrightarrow>
    tab_remove_dup argsort source =
      Inl (''Missing columns: '' @ join '', ''
             (missing_columns [''Source'', ''Destination'', ''Source Port'', ''Destination Port'']
                (canonicalize_columns source)))) \<and>
   (missing_columns [''Source'', ''Source Port'', ''Destination'', ''Destination Port'']
      (canonicalize_columns main_db) \<noteq> [] \<longrightarrow>
    tab_main sort_by_link visit main_db match_db =
      Inl (''Main missing columns: '' @ join '', ''
             (missing_columns [''Source'', ''Source Port'', ''Destination'', ''Destination Port'']
                (canonicalize_columns main_db)))) \<and>
   (missing_columns [''Source'', ''Source Port'', ''Destination'', ''Destination Port'']
      (canonicalize_columns main_db) = [] \<and>
    missing_columns [''Source'', ''Source Port'', ''Destination'', ''Destination Port'']
      (canonicalize_columns match_db) \<noteq> [] \<longrightarrow>
    tab_main sort_by_link visit main_db match_db =
      Inl (''Match missing columns: '' @ join '', ''
             (missing_columns [''Source'', ''Source Port'', ''Destination'', ''Destination Port'']
                (canonicalize_columns match_db)))) \<and>
   set (missing_columns required_cols df) = set required_cols - set (columns df)"
proof -
  have p2: "tab_dup_ports pd source =
      Inl (''Missing columns: '' @ join '', ''
             (missing_columns [''Source'', ''Source Port'', ''Destination'', ''Destination Port'']
                (canonicalize_columns source)))"
    if "missing_columns [''Source'', ''Source Port'', ''Destination'', ''Destination Port'']
          (canonicalize_columns source) \<noteq> []"
    using that unfolding tab_dup_ports_def Let_def by simp
  have p3: "tab_remove_dup argsort source =
      Inl (''Missing columns: '' @ join '', ''
             (missing_columns [''Source'', ''Destination'', ''Source Port'', ''Destination Port'']
                (canonicalize_columns source)))"
    if "missing_columns [''Source'', ''Destination'', ''Source Port'', ''Destination Port'']
          (canonicalize_columns source) \<noteq> []"
    using that unfolding tab_remove_dup_def Let_def by simp
  have p1a: "tab_main sort_by_link visit main_db match_db =
      Inl (''Main missing columns: '' @ join '', ''
             (missing_columns [''Source'', ''Source Port'', ''Destination'', ''Destination Port'']
                (canonicalize_columns main_db)))"
    if "missing_columns [''Source'', ''Source Port'', ''Destination'', ''Destination Port'']
          (canonicalize_columns main_db) \<noteq> []"
    using that unfolding tab_main_def Let_def by simp
  have p1b: "tab_main sort_by_link visit main_db match_db =
      Inl (''Match missing columns: '' @ join '', ''
             (missing_columns [''Source'', ''Source Port'', ''Destination'', ''Destination Port'']
                (canonicalize_columns match_db)))"
    if "missing_columns [''Source'', ''Source Port'', ''Destination'', ''Destination Port'']
          (canonicalize_columns main_db) = []"
      and "missing_columns [''Source'', ''Source Port'', ''Destination'', ''Destination Port'']
          (canonicalize_columns match_db) \<noteq> []"
    using that unfolding tab_main_def Let_def by simp
  have all: "set (missing_columns required_cols df) = set required_cols - set (columns df)"
    by (auto simp: missing_columns_def)
  from p2 p3 p1a p1b all show ?thesis by blast
qed


theorem missing_columns_abort_witness:
  "tab_dup_ports Pandas2 no_destination_sheet = Inl ''Missing columns: Destination, Destination Port'' \<and>
   tab_remove_dup numpy_argsort no_destination_sheet
     = Inl ''Missing columns: Destination, Destination Port'' \<and>
   tab_main (sort_key normalized) remdups no_source_sheet two_links_sheet
     = Inl ''Main missing columns: Source'' \<and>
   tab_main (sort_key normalized) remdups two_links_sheet no_destination_sheet
     = Inl ''Match missing columns: Destination, Destination Port'' \<and>
   set (missing_columns [''Source'', ''Destination''] no_destination_sheet) = {''Destination''}"
proof -
  let ?req = "[''Source'', ''Source Port'', ''Destination'', ''Destination Port'']"
  let ?req3 = "[''Source'', ''Destination'', ''Source Port'', ''Destination Port'']"
  have a: "missing_columns ?req (canonicalize_columns no_destination_sheet)
             = [''Destination'', ''Destination Port'']" by code_simp
  have b: "missing_columns ?req3 (canonicalize_columns no_destination_sheet)
             = [''Destination'', ''Destination Port'']" by code_simp
  have c: "missing_columns ?req (canonicalize_columns no_source_sheet) = [''Source'']"
    by code_simp
  have d: "missing_columns ?req (canonicalize_columns two_links_sheet) = []" by code_simp
  have e: "set [''Source'', ''Destination''] - set (columns no_destination_sheet) = {''Destination''}"
    by (simp add: no_destination_sheet_def) 
  note inst = missing_columns_abort [where argsort = numpy_argsort and pd = Pandas2
      and sort_by_link = "sort_key normalized" and visit = remdups
      and required_cols = "[''Source'', ''Destination'']" and df = no_destination_sheet]
  from inst [where source = no_destination_sheet] a
  have 1: "tab_dup_ports Pandas2 no_destination_sheet = Inl ''Missing columns: Destination, Destination Port''"
    by simp
  from inst [where source = no_destination_sheet] b
  have 2: "tab_remove_dup numpy_argsort no_destination_sheet
             = Inl ''Missing columns: Destination, Destination Port''"
    by simp
  from inst [where main_db = no_source_sheet and match_db = two_links_sheet] c
  have 3: "tab_main (sort_key normalized) remdups no_source_sheet two_links_sheet
             = Inl ''Main missing columns: Source''"
    by simp
  from inst [where main_db = two_links_sheet and match_db = no_destination_sheet] d a
  have 4: "tab_main (sort_key normalized) remdups two_links_sheet no_destination_sheet
             = Inl ''Match missing columns: Destination, Destination Port''"
    by simp
  from inst e
  have 5: "set (missing_columns [''Source'', ''Destination''] no_destination_sheet) = {''Destination''}"
    by simp
  from 1 2 3 4 5 show ?thesis by blast
qed

text \<open>
  C9 (as the claim states it) fails for the Match dataset of the link analysis panel when
  Main lacks a column too: Match lacks \<open>Destination\<close> and \<open>Destination Port\<close>, and the
  message names only the missing column of Main.
\<close>

theorem missing_columns_abort_counterexample:
  "missing_columns [''Source'', ''Source Port'', ''Destination'', ''Destination Port'']
     (canonicalize_columns no_destination_sheet) = [''Destination'', ''Destination Port''] \<and>
   tab_main (sort_key normalized) remdups no_source_sheet no_destination_sheet
     = Inl ''Main missing columns: Source''"
  by code_simp



end
